theory Spec2Isabelle
  imports Complex_Main "HOL-Library.Sublist" "HOL-Library.AList"
begin

section \<open>Characters and Python string primitives\<close>

text \<open>
  A Python \<open>str\<close> is modelled as a \<open>string\<close> whose characters are the code points
  below 256.  The classes \<open>\w\<close> and \<open>\s\<close> of the \<open>re\<close> module (in its default Unicode
  mode) and \<open>str.lower\<close> are written out for exactly these code points.
\<close>

abbreviation BSL :: char where "BSL \<equiv> CHR 0x5C"
abbreviation DQ :: char where "DQ \<equiv> CHR 0x22"
abbreviation SQ :: char where "SQ \<equiv> CHR 0x27"
abbreviation NL :: char where "NL \<equiv> CHR 0x0A"
abbreviation CR :: char where "CR \<equiv> CHR 0x0D"
abbreviation TAB :: char where "TAB \<equiv> CHR 0x09"

definition code :: "char \<Rightarrow> nat" where
  "code c = of_char c"

definition between :: "nat \<Rightarrow> nat \<Rightarrow> nat \<Rightarrow> bool" where
  "between lo hi n = (lo \<le> n \<and> n \<le> hi)"

text \<open>\<open>[a-zA-Z]\<close>\<close>

definition is_ascii_letter :: "char \<Rightarrow> bool" where
  "is_ascii_letter c = (between 65 90 (code c) \<or> between 97 122 (code c))"

text \<open>\<open>\w\<close>: alphanumeric code points and the underscore.\<close>

definition is_word_char :: "char \<Rightarrow> bool" where
  "is_word_char c =
     (let n = code c in
        between 48 57 n \<or> between 65 90 n \<or> n = 95 \<or> between 97 122 n \<or>
        n = 170 \<or> between 178 179 n \<or> n = 181 \<or> between 185 186 n \<or>
        between 188 190 n \<or> between 192 214 n \<or> between 216 246 n \<or>
        between 248 255 n)"

text \<open>\<open>\s\<close>, which is also what \<open>str.strip()\<close> removes.\<close>

definition is_space_char :: "char \<Rightarrow> bool" where
  "is_space_char c =
     (let n = code c in between 9 13 n \<or> between 28 32 n \<or> n = 133 \<or> n = 160)"

text \<open>\<open>str.lower()\<close> on one character.\<close>

definition lower_char :: "char \<Rightarrow> char" where
  "lower_char c =
     (let n = code c in
        if between 65 90 n \<or> between 192 214 n \<or> between 216 222 n
        then char_of (n + 32) else c)"

definition lower :: "string \<Rightarrow> string" where
  "lower s = map lower_char s"

text \<open>\<open>text.replace(c, rep)\<close> for a one-character pattern \<open>c\<close>.\<close>

definition replace_char :: "char \<Rightarrow> string \<Rightarrow> string \<Rightarrow> string" where
  "replace_char c rep s = concat (map (\<lambda>x. if x = c then rep else [x]) s)"

section \<open>Literal escaping\<close>

text \<open>The character class \<open>[\w\s\-_.]\<close>; \<open>re.sub(r'[^\w\s\-_.]', '', text)\<close> keeps
  exactly its members.\<close>

definition keep_char :: "char \<Rightarrow> bool" where
  "keep_char c =
     (is_word_char c \<or> is_space_char c \<or> c = CHR ''-'' \<or> c = CHR ''_'' \<or> c = CHR ''.'')"

text \<open>\<open>_escape_sparql_string\<close>: six replacements, backslash first, then the filter.\<close>

definition escape_sparql_string :: "string \<Rightarrow> string" where
  "escape_sparql_string text =
     (if text = [] then []
      else
        let t1 = replace_char BSL [BSL, BSL] text;
            t2 = replace_char DQ [BSL, DQ] t1;
            t3 = replace_char SQ [BSL, SQ] t2;
            t4 = replace_char NL [BSL, CHR ''n''] t3;
            t5 = replace_char CR [BSL, CHR ''r''] t4;
            t6 = replace_char TAB [BSL, CHR ''t''] t5
        in filter keep_char t6)"

section \<open>Regular expressions of the intent patterns\<close>

text \<open>
  The patterns handed to \<open>re.search\<close> are built from literal characters, \<open>.\<close> (any
  character but a newline), alternation, concatenation, \<open>?\<close> and \<open>+\<close>.  Only the truth value
  of \<open>re.search\<close> is used by the program, so a pattern is modelled by its language and
  matched with derivatives: \<open>re_search r s\<close> holds iff some substring of \<open>s\<close> belongs to
  the language of \<open>r\<close>.
\<close>

datatype rexp = Zero | One | Chr char | Dot | Alt rexp rexp | Seq rexp rexp | Star rexp

fun nullable :: "rexp \<Rightarrow> bool" where
  "nullable Zero = False"
| "nullable One = True"
| "nullable (Chr c) = False"
| "nullable Dot = False"
| "nullable (Alt r s) = (nullable r \<or> nullable s)"
| "nullable (Seq r s) = (nullable r \<and> nullable s)"
| "nullable (Star r) = True"

fun deriv :: "char \<Rightarrow> rexp \<Rightarrow> rexp" where
  "deriv c Zero = Zero"
| "deriv c One = Zero"
| "deriv c (Chr d) = (if c = d then One else Zero)"
| "deriv c Dot = (if c = NL then Zero else One)"
| "deriv c (Alt r s) = Alt (deriv c r) (deriv c s)"
| "deriv c (Seq r s) =
     (if nullable r then Alt (Seq (deriv c r) s) (deriv c s) else Seq (deriv c r) s)"
| "deriv c (Star r) = Seq (deriv c r) (Star r)"

text \<open>\<open>dead r\<close> is a syntactic check that implies an empty language; it only lets the
  matcher stop early.\<close>

fun dead :: "rexp \<Rightarrow> bool" where
  "dead Zero = True"
| "dead (Alt r s) = (dead r \<and> dead s)"
| "dead (Seq r s) = dead r"
| "dead r = False"

text \<open>\<open>re.match\<close>: some prefix of the string is in the language.\<close>

fun re_match :: "rexp \<Rightarrow> string \<Rightarrow> bool" where
  "re_match r [] = nullable r"
| "re_match r (c # cs) = (nullable r \<or> (\<not> dead r \<and> re_match (deriv c r) cs))"

text \<open>\<open>re.search\<close>: a match may start at any position.\<close>

fun re_search :: "rexp \<Rightarrow> string \<Rightarrow> bool" where
  "re_search r [] = nullable r"
| "re_search r (c # cs) = (re_match r (c # cs) \<or> re_search r cs)"

text \<open>
  The language of a pattern, as the reference for the matcher: \<open>re_match\<close> and \<open>re_search\<close>
  are proved below to decide membership of a prefix and of a substring in it.
\<close>

inductive_set star :: "string set \<Rightarrow> string set" for L :: "string set" where
  star_empty: "[] \<in> star L"
| star_append: "u \<in> L \<Longrightarrow> v \<in> star L \<Longrightarrow> u @ v \<in> star L"

fun lang :: "rexp \<Rightarrow> string set" where
  "lang Zero = {}"
| "lang One = {[]}"
| "lang (Chr c) = {[c]}"
| "lang Dot = {[c] | c. c \<noteq> NL}"
| "lang (Alt r s) = lang r \<union> lang s"
| "lang (Seq r s) = {u @ v | u v. u \<in> lang r \<and> v \<in> lang s}"
| "lang (Star r) = star (lang r)"

text \<open>Pattern syntax: a literal string, \<open>(r)?\<close>, \<open>(.+)\<close>, and a sequence of parts.\<close>

definition lit :: "string \<Rightarrow> rexp" where
  "lit s = foldr (\<lambda>c r. Seq (Chr c) r) s One"

definition opt :: "rexp \<Rightarrow> rexp" where
  "opt r = Alt r One"

definition any1 :: rexp where
  "any1 = Seq Dot (Star Dot)"

definition seqs :: "rexp list \<Rightarrow> rexp" where
  "seqs rs = foldr Seq rs One"

text \<open>\<open>sub in s\<close> on strings.\<close>

fun contains :: "string \<Rightarrow> string \<Rightarrow> bool" where
  "contains sub [] = (sub = [])"
| "contains sub (c # cs) = (prefix sub (c # cs) \<or> contains sub cs)"

text \<open>
  Two syntactic aids for reasoning about the pattern table.  \<open>as_literal r\<close> is the one
  string a pattern without choice matches; \<open>requires c r\<close> is a sufficient check that every
  string matched by \<open>r\<close> holds \<open>c\<close> as a substring (both are proved sound below).
\<close>

fun as_literal :: "rexp \<Rightarrow> string option" where
  "as_literal One = Some []"
| "as_literal (Chr c) = Some [c]"
| "as_literal (Seq r s) =
     (case as_literal r of
        None \<Rightarrow> None
      | Some u \<Rightarrow> (case as_literal s of None \<Rightarrow> None | Some v \<Rightarrow> Some (u @ v)))"
| "as_literal r = None"

fun requires :: "string \<Rightarrow> rexp \<Rightarrow> bool" where
  "requires c Zero = True"
| "requires c (Alt r s) = (requires c r \<and> requires c s)"
| "requires c (Seq r s) =
     (case as_literal (Seq r s) of
        Some u \<Rightarrow> contains c u
      | None \<Rightarrow> requires c r \<or> requires c s)"
| "requires c r = (case as_literal r of Some u \<Rightarrow> contains c u | None \<Rightarrow> False)"

section \<open>Intent classification\<close>

text \<open>\<open>self.query_patterns\<close>, in the insertion order of the dictionary.\<close>

definition query_patterns :: "(string \<times> rexp list) list" where
  "query_patterns =
    [(''definition'',
       [seqs [lit ''what is '', opt (Alt (lit ''a '') (lit ''an '')), any1],
        seqs [lit ''define '', any1],
        seqs [lit ''explain '', any1],
        seqs [lit ''describe '', any1],
        seqs [lit ''tell me about '', any1],
        seqs [lit ''give me information about '', any1],
        seqs [any1, lit '' definition'']]),
     (''relationship'',
       [seqs [lit ''how '', opt (Alt (lit ''is '') (lit ''are '')), any1, lit '' related to '', any1],
        seqs [lit ''what '', any1, lit '' connect'', any1, lit '' to '', any1],
        seqs [lit ''relationship between '', any1, lit '' and '', any1],
        seqs [any1, lit '' related to '', any1],
        seqs [lit ''how do '', any1, lit '' and '', any1, lit '' interact''],
        seqs [lit ''connection between '', any1, lit '' and '', any1]]),
     (''property'',
       [seqs [lit ''what '', any1, lit '' properties '', any1, lit '' '',
              Alt (lit ''have'') (lit ''has'')],
        seqs [lit ''what attributes '', any1, lit '' '', Alt (lit ''have'') (lit ''has'')],
        seqs [lit ''properties of '', any1],
        seqs [lit ''attributes of '', any1],
        seqs [lit ''characteristics of '', any1],
        seqs [lit ''what can '', any1, lit '' do''],
        seqs [lit ''capabilities of '', any1]]),
     (''listing'',
       [seqs [lit ''list '', any1],
        seqs [lit ''show me '', any1],
        seqs [lit ''find all '', any1],
        seqs [lit ''what are '', any1],
        seqs [lit ''give me all '', any1],
        seqs [lit ''enumerate '', any1],
        seqs [lit ''all '', any1, lit '' in '', any1]]),
     (''comparison'',
       [seqs [lit ''difference between '', any1, lit '' and '', any1],
        seqs [lit ''compare '', any1, lit '' '', Alt (lit ''and'') (lit ''with''), lit '' '', any1],
        seqs [any1, lit '' vs '', any1],
        seqs [any1, lit '' versus '', any1],
        seqs [lit ''how '', any1, lit '' different from '', any1],
        seqs [lit ''similarities between '', any1, lit '' and '', any1]]),
     (''hierarchical'',
       [seqs [lit ''what are the subclasses of '', any1],
        seqs [lit ''what are the superclasses of '', any1],
        seqs [any1, lit '' hierarchy''],
        seqs [lit ''children of '', any1],
        seqs [lit ''parents of '', any1],
        seqs [lit ''what inherits from '', any1],
        seqs [lit ''what does '', any1, lit '' inherit from'']]),
     (''existence'',
       [seqs [lit ''does '', any1, lit '' exist''],
        seqs [lit ''is there '', any1],
        seqs [lit ''are there any '', any1],
        seqs [lit ''do we have '', any1],
        seqs [lit ''can you find '', any1]]),
     (''count'',
       [seqs [lit ''how many '', any1],
        seqs [lit ''count '', any1],
        seqs [lit ''number of '', any1],
        seqs [lit ''total '', any1]])]"

text \<open>\<open>self.intent_keywords\<close>.\<close>

definition intent_keywords :: "(string \<times> string list) list" where
  "intent_keywords =
    [(''definition'', [''what'', ''define'', ''explain'', ''describe'', ''meaning'', ''definition'']),
     (''relationship'', [''related'', ''relationship'', ''connection'', ''interact'', ''connect'']),
     (''property'', [''property'', ''properties'', ''attribute'', ''attributes'', ''characteristic'']),
     (''listing'', [''list'', ''show'', ''all'', ''find'', ''enumerate'', ''give me'']),
     (''comparison'', [''difference'', ''compare'', ''vs'', ''versus'', ''different'', ''similar'']),
     (''hierarchical'', [''subclass'', ''superclass'', ''hierarchy'', ''inherit'', ''parent'', ''child'']),
     (''existence'', [''exist'', ''there'', ''any'', ''have'', ''find'']),
     (''count'', [''many'', ''count'', ''number'', ''total'', ''how much''])]"

text \<open>Exceptions of the Python code that the model keeps as values.\<close>

datatype py_error = IndexError | AttributeError | CollaboratorError string

text \<open>A dictionary with insertion order is an association list: \<open>d[k] = v\<close> is
  \<open>AList.update\<close> (in place for a present key, appended otherwise), \<open>d.get(k, dflt)\<close> is
  \<open>dict_get\<close>.\<close>

definition dict_get :: "('k \<times> 'v) list \<Rightarrow> 'k \<Rightarrow> 'v \<Rightarrow> 'v" where
  "dict_get d k dflt = (case map_of d k of None \<Rightarrow> dflt | Some v \<Rightarrow> v)"

text \<open>\<open>str.strip()\<close>.\<close>

definition strip :: "string \<Rightarrow> string" where
  "strip s = rev (dropWhile is_space_char (rev (dropWhile is_space_char s)))"

text \<open>\<open>sorted(xs, key=f, reverse=True)\<close>: descending by key, and stable, so elements
  with equal keys keep their order in \<open>xs\<close>.\<close>

definition sorted_desc :: "('a \<Rightarrow> 'b::linordered_idom) \<Rightarrow> 'a list \<Rightarrow> 'a list" where
  "sorted_desc f xs = sort_key (\<lambda>x. - f x) xs"

record classification =
  primary_intent :: string
  secondary_intent :: "string option"
  confidence :: rat
  all_scores :: "(string \<times> rat) list"

definition pattern_score :: "string \<Rightarrow> rexp list \<Rightarrow> nat" where
  "pattern_score query_lower patterns = length (filter (\<lambda>p. re_search p query_lower) patterns)"

definition keyword_score :: "string \<Rightarrow> string list \<Rightarrow> nat" where
  "keyword_score query_lower keywords = length (filter (\<lambda>k. contains k query_lower) keywords)"

text \<open>The two loops that fill \<open>intent_scores\<close>.\<close>

definition intent_scores :: "string \<Rightarrow> (string \<times> rat) list" where
  "intent_scores query_lower =
     (let d0 = fold (\<lambda>(intent, patterns) d.
                   AList.update intent (of_nat (pattern_score query_lower patterns)) d)
                 query_patterns [];
          d1 = fold (\<lambda>(intent, keywords) d.
                   AList.update intent
                     (dict_get d intent 0 + of_nat (keyword_score query_lower keywords) * (1 / 2)) d)
                 intent_keywords d0
      in d1)"

text \<open>\<open>_classify_query_enhanced\<close>.  \<open>sorted_intents[0]\<close> raises \<open>IndexError\<close> on an empty
  list; the score multiples of \<open>0.5\<close> are exact in binary floating point and are kept as
  rationals.\<close>

definition classify_query_enhanced :: "string \<Rightarrow> py_error + classification" where
  "classify_query_enhanced query =
     (let query_lower = strip (lower query);
          sorted_intents = sorted_desc snd (intent_scores query_lower)
      in case sorted_intents of
           [] \<Rightarrow> Inl IndexError
         | (i0, s0) # rest \<Rightarrow>
             Inr \<lparr> primary_intent = (if s0 > 0 then i0 else ''general''),
                   secondary_intent =
                     (case rest of [] \<Rightarrow> None
                      | (i1, s1) # _ \<Rightarrow> if s1 > 0 then Some i1 else None),
                   confidence = s0,
                   all_scores = sorted_intents \<rparr>)"

section \<open>Concept extraction\<close>

definition stop_words :: "string list" where
  "stop_words =
    [''what'', ''is'', ''are'', ''the'', ''a'', ''an'', ''and'', ''or'', ''but'', ''in'', ''on'',
     ''at'', ''to'', ''for'', ''of'', ''with'', ''by'', ''how'', ''why'', ''when'', ''where'',
     ''who'', ''which'', ''that'', ''this'', ''tell'', ''me'', ''about'', ''show'', ''find'',
     ''list'', ''describe'', ''explain'', ''define'', ''do'', ''does'', ''did'', ''can'',
     ''could'', ''would'', ''should'', ''will'', ''have'', ''has'', ''had'']"

text \<open>
  The words of the classifier's tables, for relating them to the stop words:
  \<open>trigger_cores\<close> holds, for every intent keyword and every intent pattern, a word of its
  literal text (the keyword itself where it is one word); \<open>scoring_stop_words\<close> are the stop
  words that hold one of them.
\<close>

definition trigger_cores :: "string list" where
  "trigger_cores =
    [''what'', ''define'', ''explain'', ''describe'', ''meaning'', ''definition'', ''tell'',
     ''related'', ''relationship'', ''connection'', ''interact'', ''connect'',
     ''property'', ''properties'', ''attribute'', ''attributes'', ''characteristic'',
     ''capabilities'',
     ''list'', ''show'', ''all'', ''find'', ''enumerate'', ''give'',
     ''difference'', ''compare'', ''vs'', ''versus'', ''different'', ''similar'',
     ''subclass'', ''superclass'', ''hierarchy'', ''inherit'', ''parent'', ''child'',
     ''exist'', ''there'', ''any'', ''have'',
     ''many'', ''count'', ''number'', ''total'', ''much'']"

definition scoring_stop_words :: "string list" where
  "scoring_stop_words =
    [''what'', ''show'', ''find'', ''list'', ''describe'', ''explain'', ''define'', ''have'',
     ''tell'']"

text \<open>
  \<open>re.findall(r'\b[a-zA-Z]+\b', s)\<close>.  A match starts and ends at a word boundary and holds
  letters only, and no boundary lies between two letters; so the matches are the maximal
  runs of word characters of \<open>s\<close> that consist of ASCII letters alone, from left to right.
\<close>

function word_runs :: "string \<Rightarrow> string list" where
  "word_runs [] = []"
| "word_runs (c # cs) =
     (if is_word_char c
      then (c # takeWhile is_word_char cs) # word_runs (dropWhile is_word_char cs)
      else word_runs cs)"
  by pat_completeness auto
termination
  by (relation "measure length") (auto simp: length_dropWhile_le less_Suc_eq_le)

definition findall_words :: "string \<Rightarrow> string list" where
  "findall_words s = filter (list_all is_ascii_letter) (word_runs s)"

text \<open>
  \<open>re.findall(r'\"([^\"]+)\"', s)\<close> and its single-quote twin, for the quote character
  \<open>q\<close>: an opening quote, a non-empty run without the quote, the closing quote; the scan
  resumes behind the closing quote, or one character on where no match starts.
\<close>

function find_quoted :: "char \<Rightarrow> string \<Rightarrow> string list" where
  "find_quoted q [] = []"
| "find_quoted q (c # cs) =
     (if c = q \<and> takeWhile (\<lambda>x. x \<noteq> q) cs \<noteq> [] \<and> dropWhile (\<lambda>x. x \<noteq> q) cs \<noteq> []
      then takeWhile (\<lambda>x. x \<noteq> q) cs # find_quoted q (tl (dropWhile (\<lambda>x. x \<noteq> q) cs))
      else find_quoted q cs)"
  by pat_completeness auto
termination
proof (relation "measure (\<lambda>(q, s). length s)", goal_cases)
  case 1
  show ?case by simp
next
  case (2 q c cs)
  have "length (tl (dropWhile (\<lambda>x. x \<noteq> q) cs)) \<le> length (dropWhile (\<lambda>x. x \<noteq> q) cs)"
    by simp
  also have "\<dots> \<le> length cs"
    by (rule length_dropWhile_le)
  finally show ?case by simp
next
  case (3 q c cs)
  show ?case by simp
qed

text \<open>The loop over \<open>range(len(concepts) - 1)\<close> that collects bigrams and trigrams.\<close>

fun multi_words :: "string list \<Rightarrow> string list" where
  "multi_words (a # b # rest) =
     (if length a > 3 \<and> length b > 3
      then (a @ '' '' @ b) #
           (case rest of
              [] \<Rightarrow> []
            | c # _ \<Rightarrow> if length c > 3 then [a @ '' '' @ b @ '' '' @ c] else [])
      else [])
     @ multi_words (b # rest)"
| "multi_words _ = []"

text \<open>\<open>s.count(sub)\<close>: the number of non-overlapping occurrences, \<open>len(s) + 1\<close> for the
  empty \<open>sub\<close>.\<close>

function count_sub :: "string \<Rightarrow> string \<Rightarrow> nat" where
  "count_sub sub s =
     (if sub = [] then length s + 1
      else if s = [] then 0
      else if prefix sub s then 1 + count_sub sub (drop (length sub) s)
      else count_sub sub (tl s))"
  by pat_completeness auto
termination
  by (relation "measure (\<lambda>(sub, s). length s)") auto

text \<open>\<open>s.find(sub)\<close>: the lowest index of an occurrence, \<open>-1\<close> if there is none.\<close>

fun find_from :: "string \<Rightarrow> string \<Rightarrow> int \<Rightarrow> int" where
  "find_from sub [] i = (if sub = [] then i else - 1)"
| "find_from sub (c # cs) i = (if prefix sub (c # cs) then i else find_from sub cs (i + 1))"

definition find_sub :: "string \<Rightarrow> string \<Rightarrow> int" where
  "find_sub sub s = find_from sub s 0"

text \<open>
  The score of one concept.  The test \<open>find(...) < len(query) * 0.3\<close> compares an integer
  \<open>i\<close> with the product of an integer \<open>n\<close> and the constant \<open>0.3\<close>.  It is written here as
  \<open>10 * i < 3 * n\<close>: where \<open>3 * n / 10\<close> is an integer the rounded product is that integer,
  and elsewhere the product is at least a tenth away from every integer, so for every
  length a query can have both tests agree.
\<close>

definition concept_score :: "string \<Rightarrow> string \<Rightarrow> int" where
  "concept_score query concept =
     (let score = int (count_sub (lower concept) (lower query))
      in if 10 * find_sub (lower concept) (lower query) < 3 * int (length query)
         then score + 1 else score)"

text \<open>
  \<open>list(set(xs))\<close> lists every element of \<open>xs\<close> once, in an order the language leaves
  open.  The order is a parameter \<open>set_order\<close> of the model; \<open>set_listing\<close> says what
  every such order satisfies.
\<close>

definition set_listing :: "('a list \<Rightarrow> 'a list) \<Rightarrow> bool" where
  "set_listing set_order = (\<forall>xs. distinct (set_order xs) \<and> set (set_order xs) = set xs)"

text \<open>
  \<open>_extract_key_concepts_enhanced\<close>, in three parts: the candidates handed to \<open>set(...)\<close>,
  the scoring and sorting of the listed set, and their composition.
\<close>

definition candidate_concepts :: "string \<Rightarrow> string list" where
  "candidate_concepts query =
     (let words = findall_words (lower query);
          concepts = filter (\<lambda>word. word \<notin> set stop_words \<and> length word > 2) words;
          quoted_phrases = find_quoted DQ query @ find_quoted SQ query
      in concepts @ multi_words concepts @ quoted_phrases)"

definition rank_concepts :: "string \<Rightarrow> string list \<Rightarrow> string list" where
  "rank_concepts query all_concepts =
     (let scored_concepts = map (\<lambda>concept. (concept, concept_score query concept)) all_concepts;
          sorted_concepts = sorted_desc snd scored_concepts
      in map fst sorted_concepts)"

definition extract_key_concepts_enhanced ::
  "(string list \<Rightarrow> string list) \<Rightarrow> string \<Rightarrow> string list" where
  "extract_key_concepts_enhanced set_order query =
     rank_concepts query (set_order (candidate_concepts query))"

section \<open>Structured query synthesis\<close>

text \<open>
  The class body defines \<open>_generate_targeted_sparql_queries\<close> twice; the later definition
  is the one bound to the name and the one \<open>process_query\<close> calls.  It is the one modelled
  here.  Each query text is the f-string of the source, character for character, with the
  concept spliced in as it is.
\<close>

record query_spec =
  spec_type :: string
  spec_query :: string
  spec_description :: string

text \<open>The query text of a \<open>list_classes\<close> entry: classes whose URI or label contains the concept.\<close>

definition list_classes_query :: "string \<Rightarrow> string" where
  \<open>list_classes_query concept =
     ''\<newline>'' @
     ''                        SELECT ?class ?label WHERE {\<newline>'' @
     ''                            ?class rdf:type owl:Class .\<newline>'' @
     ''                            OPTIONAL { ?class rdfs:label ?label }\<newline>'' @
     ''                            FILTER(CONTAINS(LCASE(STR(?class)), LCASE("'' @
     concept @
     ''")) || \<newline>'' @
     ''                                   CONTAINS(LCASE(STR(?label)), LCASE("'' @
     concept @
     ''")))\<newline>'' @
     ''                        } LIMIT 20\<newline>'' @
     ''                        ''\<close>

definition list_classes_description :: "string \<Rightarrow> string" where
  \<open>list_classes_description concept = ''Classes related to "'' @ concept @ ''"''\<close>

text \<open>The query text of a \<open>list_properties\<close> entry: object and datatype properties whose URI or label contains the concept.\<close>

definition list_properties_query :: "string \<Rightarrow> string" where
  \<open>list_properties_query concept =
     ''\<newline>'' @
     ''                        SELECT ?property ?label ?type WHERE {\<newline>'' @
     ''                            {\<newline>'' @
     ''                                ?property rdf:type owl:ObjectProperty .\<newline>'' @
     ''                                BIND("ObjectProperty" AS ?type)\<newline>'' @
     ''                            } UNION {\<newline>'' @
     ''                                ?property rdf:type owl:DatatypeProperty .\<newline>'' @
     ''                                BIND("DatatypeProperty" AS ?type)\<newline>'' @
     ''                            }\<newline>'' @
     ''                            OPTIONAL { ?property rdfs:label ?label }\<newline>'' @
     ''                            FILTER(CONTAINS(LCASE(STR(?property)), LCASE("'' @
     concept @
     ''")) || \<newline>'' @
     ''                                   CONTAINS(LCASE(STR(?label)), LCASE("'' @
     concept @
     ''")))\<newline>'' @
     ''                        } LIMIT 15\<newline>'' @
     ''                        ''\<close>

definition list_properties_description :: "string \<Rightarrow> string" where
  \<open>list_properties_description concept = ''Properties related to "'' @ concept @ ''"''\<close>

text \<open>The query text of a \<open>subclasses\<close> entry: subclasses of the classes that match the concept.\<close>

definition subclasses_query :: "string \<Rightarrow> string" where
  \<open>subclasses_query concept =
     ''\<newline>'' @
     ''                        SELECT ?subclass ?label WHERE {\<newline>'' @
     ''                            ?class rdf:type owl:Class .\<newline>'' @
     ''                            ?subclass rdfs:subClassOf ?class .\<newline>'' @
     ''                            OPTIONAL { ?subclass rdfs:label ?label }\<newline>'' @
     ''                            FILTER(CONTAINS(LCASE(STR(?class)), LCASE("'' @
     concept @
     ''")) || \<newline>'' @
     ''                                   CONTAINS(LCASE(STR(?label)), LCASE("'' @
     concept @
     ''")))\<newline>'' @
     ''                        } LIMIT 15\<newline>'' @
     ''                        ''\<close>

definition subclasses_description :: "string \<Rightarrow> string" where
  \<open>subclasses_description concept = ''Subclasses of classes related to "'' @ concept @ ''"''\<close>

text \<open>The query text of a \<open>superclasses\<close> entry: superclasses of the classes that match the concept.\<close>

definition superclasses_query :: "string \<Rightarrow> string" where
  \<open>superclasses_query concept =
     ''\<newline>'' @
     ''                        SELECT ?superclass ?label WHERE {\<newline>'' @
     ''                            ?class rdf:type owl:Class .\<newline>'' @
     ''                            ?class rdfs:subClassOf ?superclass .\<newline>'' @
     ''                            OPTIONAL { ?superclass rdfs:label ?label }\<newline>'' @
     ''                            FILTER(CONTAINS(LCASE(STR(?class)), LCASE("'' @
     concept @
     ''")) || \<newline>'' @
     ''                                   CONTAINS(LCASE(STR(?label)), LCASE("'' @
     concept @
     ''")))\<newline>'' @
     ''                        } LIMIT 15\<newline>'' @
     ''                        ''\<close>

definition superclasses_description :: "string \<Rightarrow> string" where
  \<open>superclasses_description concept = ''Superclasses of classes related to "'' @ concept @ ''"''\<close>

text \<open>The query text of a \<open>relationships\<close> entry: triples that link the two concepts in either direction.\<close>

definition relationships_query :: "string \<Rightarrow> string \<Rightarrow> string" where
  \<open>relationships_query concept1 concept2 =
     ''\<newline>'' @
     ''                        SELECT ?subject ?predicate ?object WHERE {\<newline>'' @
     ''                            ?subject ?predicate ?object .\<newline>'' @
     ''                            FILTER(\<newline>'' @
     ''                                (CONTAINS(LCASE(STR(?subject)), LCASE("'' @
     concept1 @
     ''")) && \<newline>'' @
     ''                                 CONTAINS(LCASE(STR(?object)), LCASE("'' @
     concept2 @
     ''"))) ||\<newline>'' @
     ''                                (CONTAINS(LCASE(STR(?subject)), LCASE("'' @
     concept2 @
     ''")) && \<newline>'' @
     ''                                 CONTAINS(LCASE(STR(?object)), LCASE("'' @
     concept1 @
     ''")))\<newline>'' @
     ''                            )\<newline>'' @
     ''                        } LIMIT 20\<newline>'' @
     ''                        ''\<close>

definition relationships_description :: "string \<Rightarrow> string \<Rightarrow> string" where
  \<open>relationships_description concept1 concept2 = ''Relationships between "'' @ concept1 @ ''" and "'' @ concept2 @ ''"''\<close>

text \<open>The query text of a \<open>count_classes\<close> entry: the number of classes that match the concept.\<close>

definition count_classes_query :: "string \<Rightarrow> string" where
  \<open>count_classes_query concept =
     ''\<newline>'' @
     ''                        SELECT (COUNT(?class) AS ?count) WHERE {\<newline>'' @
     ''                            ?class rdf:type owl:Class .\<newline>'' @
     ''                            OPTIONAL { ?class rdfs:label ?label }\<newline>'' @
     ''                            FILTER(CONTAINS(LCASE(STR(?class)), LCASE("'' @
     concept @
     ''")) || \<newline>'' @
     ''                                   CONTAINS(LCASE(STR(?label)), LCASE("'' @
     concept @
     ''")))\<newline>'' @
     ''                        }\<newline>'' @
     ''                        ''\<close>

definition count_classes_description :: "string \<Rightarrow> string" where
  \<open>count_classes_description concept = ''Count of classes related to "'' @ concept @ ''"''\<close>

text \<open>The entries appended for one concept under each intent.\<close>

definition listing_specs :: "string \<Rightarrow> query_spec list" where
  "listing_specs concept =
     [\<lparr> spec_type = ''list_classes'', spec_query = list_classes_query concept,
        spec_description = list_classes_description concept \<rparr>,
      \<lparr> spec_type = ''list_properties'', spec_query = list_properties_query concept,
        spec_description = list_properties_description concept \<rparr>]"

definition hierarchical_specs :: "string \<Rightarrow> query_spec list" where
  "hierarchical_specs concept =
     [\<lparr> spec_type = ''subclasses'', spec_query = subclasses_query concept,
        spec_description = subclasses_description concept \<rparr>,
      \<lparr> spec_type = ''superclasses'', spec_query = superclasses_query concept,
        spec_description = superclasses_description concept \<rparr>]"

definition relationship_spec :: "string \<Rightarrow> string \<Rightarrow> query_spec" where
  "relationship_spec concept1 concept2 =
     \<lparr> spec_type = ''relationships'', spec_query = relationships_query concept1 concept2,
       spec_description = relationships_description concept1 concept2 \<rparr>"

definition count_spec :: "string \<Rightarrow> query_spec" where
  "count_spec concept =
     \<lparr> spec_type = ''count_classes'', spec_query = count_classes_query concept,
       spec_description = count_classes_description concept \<rparr>"

text \<open>\<open>_generate_targeted_sparql_queries\<close>; the \<open>query\<close> argument is not used by the
  source either.\<close>

definition generate_targeted_sparql_queries ::
  "string \<Rightarrow> classification \<Rightarrow> string list \<Rightarrow> query_spec list" where
  "generate_targeted_sparql_queries query classification concepts =
     (if primary_intent classification = ''listing''
        then concat (map listing_specs (take 3 concepts))
      else if primary_intent classification = ''hierarchical''
        then concat (map hierarchical_specs (take 2 concepts))
      else if primary_intent classification = ''relationship''
        then (case concepts of
                concept1 # concept2 # _ \<Rightarrow> [relationship_spec concept1 concept2]
              | _ \<Rightarrow> [])
      else if primary_intent classification = ''count''
        then map count_spec (take 2 concepts)
      else [])"

section \<open>Query preprocessing\<close>

text \<open>\<open>re.sub(r'\s+', ' ', s)\<close>: every maximal run of whitespace becomes one space.\<close>

function collapse_whitespace :: "string \<Rightarrow> string" where
  "collapse_whitespace [] = []"
| "collapse_whitespace (c # cs) =
     (if is_space_char c then CHR '' '' # collapse_whitespace (dropWhile is_space_char cs)
      else c # collapse_whitespace cs)"
  by pat_completeness auto
termination
  by (relation "measure length") (auto simp: length_dropWhile_le less_Suc_eq_le)

text \<open>
  \<open>re.sub(r'\babbr\b', expansion, s, flags=re.IGNORECASE)\<close> for a lower-case word
  \<open>abbr\<close>.  The flag \<open>prev_word\<close> says whether the character before the current position is
  a word character; a match needs a word boundary on both sides.
\<close>

function sub_abbreviation :: "string \<Rightarrow> string \<Rightarrow> bool \<Rightarrow> string \<Rightarrow> string" where
  "sub_abbreviation abbr expansion prev_word [] = []"
| "sub_abbreviation abbr expansion prev_word (c # cs) =
     (if abbr \<noteq> [] \<and> \<not> prev_word \<and> lower (take (length abbr) (c # cs)) = abbr
         \<and> (case drop (length abbr) (c # cs) of [] \<Rightarrow> True | d # _ \<Rightarrow> \<not> is_word_char d)
      then expansion @ sub_abbreviation abbr expansion True (drop (length abbr) (c # cs))
      else c # sub_abbreviation abbr expansion (is_word_char c) cs)"
  by pat_completeness auto
termination
  by (relation "measure (\<lambda>(abbr, expansion, prev_word, s). length s)") auto

definition abbreviations :: "(string \<times> string) list" where
  "abbreviations =
     [(''whats'', ''what is''), (''whos'', ''who is''), (''wheres'', ''where is''),
      (''hows'', ''how is''), (''whens'', ''when is'')]"

text \<open>\<open>_preprocess_query\<close>.\<close>

definition preprocess_query :: "string \<Rightarrow> string" where
  "preprocess_query query =
     fold (\<lambda>(abbr, expansion) q. sub_abbreviation abbr expansion False q) abbreviations
       (collapse_whitespace (strip query))"

section \<open>Retrieval orchestration\<close>

text \<open>
  A semantic hit, with the fields the program reads.  \<open>related_entities\<close> holds the local
  names and \<open>instances\<close> the labels of the enrichment entries; a missing key and an empty list
  are treated alike by every reader.  The similarity score is carried as the text that the
  format \<open>.3f\<close> produces for it.
\<close>

record entity =
  uri :: string
  local_name :: string
  entity_type :: string
  labels :: "string list"
  comments :: "string list"
  related_entities :: "string list"
  instances :: "string list"
  similarity_score :: string

text \<open>A dictionary from strings to strings: one row of bindings, or the reply of the
  question-answering chain.\<close>

type_synonym py_dict = "(string \<times> string) list"

text \<open>What \<open>rdf_manager.query_with_langchain\<close> may do.\<close>

datatype chain_reply = Raises py_error | ReturnsNone | Returns py_dict

text \<open>
  The collaborators of the processor: the vector store (\<open>None\<close> when it is not configured;
  its \<open>search_similar\<close> is called with the query text, \<open>top_k\<close> and the fixed \<open>min_score\<close>),
  whether a chain is configured, the chain call, the graph query call, the enrichment of
  one hit (\<open>_enhance_entity_with_relations\<close>, which catches every exception itself) and the
  schema summary.
\<close>

record env =
  vector_store :: "(string \<Rightarrow> int \<Rightarrow> py_error + entity list) option"
  sparql_chain :: bool
  query_with_langchain :: "string \<Rightarrow> chain_reply"
  query_sparql :: "string \<Rightarrow> py_error + py_dict list"
  enhance_entity_with_relations :: "entity \<Rightarrow> entity"
  get_schema_summary :: "py_error + string"

text \<open>\<open>str(e)\<close> of a caught exception.\<close>

fun str_of_error :: "py_error \<Rightarrow> string" where
  "str_of_error IndexError = ''list index out of range''"
| "str_of_error AttributeError = [SQ] @ ''NoneType'' @ [SQ] @ '' object has no attribute ''
     @ [SQ] @ ''get'' @ [SQ]"
| "str_of_error (CollaboratorError msg) = msg"

record direct_result =
  query_type :: string
  sparql_query :: string
  results :: "py_dict list"
  description :: string

text \<open>The result dictionary of a successful call; \<open>enhanced_entities\<close> is \<open>None\<close> while the
  key is absent.\<close>

record result =
  original_query :: string
  cleaned_query :: string
  query_classification :: classification
  key_concepts :: "string list"
  vector_search_results :: "entity list"
  sparql_chain_result :: "py_dict option"
  direct_sparql_results :: "direct_result list"
  enhanced_entities :: "entity list option"
  context_text :: string
  success :: bool
  processing_method :: "string list"

text \<open>The dictionary returned by the outermost \<open>except\<close>.\<close>

record failure =
  failed_query :: string
  failure_error :: string

section \<open>Context assembly\<close>

text \<open>\<open>sep.join(xs)\<close>.\<close>

fun join :: "string \<Rightarrow> string list \<Rightarrow> string" where
  "join sep [] = []"
| "join sep [x] = x"
| "join sep (x # y # ys) = x @ sep @ join sep (y # ys)"

text \<open>The decimal text of a natural number, for the counters of \<open>enumerate\<close>.\<close>

fun str_nat :: "nat \<Rightarrow> string" where
  "str_nat n =
     (if n < 10 then [char_of (48 + n)] else str_nat (n div 10) @ [char_of (48 + n mod 10)])"

text \<open>\<open>enumerate(xs, 1)\<close>.\<close>

definition enumerate1 :: "'a list \<Rightarrow> (nat \<times> 'a) list" where
  "enumerate1 xs = zip [1 ..< Suc (length xs)] xs"

text \<open>\<open>d.get(k)\<close> is true for a present key with a non-empty value.\<close>

definition dict_truthy :: "py_dict \<Rightarrow> string \<Rightarrow> bool" where
  "dict_truthy d k = (case map_of d k of None \<Rightarrow> False | Some v \<Rightarrow> v \<noteq> [])"

text \<open>Truth value of \<open>result.get('sparql_chain_result')\<close>: neither \<open>None\<close> nor an empty
  dictionary.\<close>

definition chain_result_truthy :: "py_dict option \<Rightarrow> bool" where
  "chain_result_truthy c = (case c of None \<Rightarrow> False | Some d \<Rightarrow> d \<noteq> [])"

definition info_section :: "result \<Rightarrow> string list" where
  "info_section r =
     [''User Query: '' @ original_query r,
      ''Query Intent: '' @ primary_intent (query_classification r)]
     @ (case secondary_intent (query_classification r) of
          None \<Rightarrow> []
        | Some s \<Rightarrow> if s \<noteq> [] then [''Secondary Intent: '' @ s] else [])
     @ [''Key Concepts: '' @ join '', '' (take 5 (key_concepts r)), '''']"

definition chain_section :: "result \<Rightarrow> string list" where
  "chain_section r =
     (case sparql_chain_result r of
        None \<Rightarrow> []
      | Some d \<Rightarrow>
          if d \<noteq> [] \<and> \<not> dict_truthy d ''error''
          then [''=== LANGCHAIN SPARQL ANALYSIS ==='']
               @ (if dict_truthy d ''answer''
                  then [''Generated Answer: '' @ dict_get d ''answer'' []] else [])
               @ (if dict_truthy d ''sparql_query''
                  then [''SPARQL Query Used: '' @ dict_get d ''sparql_query'' []] else [])
               @ ['''']
          else [])"

definition entity_lines :: "nat \<Rightarrow> entity \<Rightarrow> string list" where
  "entity_lines i e =
     [str_nat i @ ''. '' @ local_name e @ '' ('' @ entity_type e @ '')'',
      ''   URI: '' @ uri e]
     @ (if labels e \<noteq> [] then [''   Labels: '' @ join '', '' (labels e)] else [])
     @ (if comments e \<noteq> [] then [''   Description: '' @ join '' '' (take 2 (comments e))] else [])
     @ (if related_entities e \<noteq> []
        then [''   Related to: '' @ join '', '' (take 3 (related_entities e))] else [])
     @ (if instances e \<noteq> []
        then [''   Examples: '' @ join '', '' (take 3 (instances e))] else [])
     @ [''   Similarity Score: '' @ similarity_score e, '''']"

definition vector_section :: "result \<Rightarrow> string list" where
  "vector_section r =
     (if vector_search_results r \<noteq> []
      then ''=== RELEVANT ENTITIES FROM KNOWLEDGE GRAPH ==='' #
           concat (map (\<lambda>(i, e). entity_lines i e) (enumerate1 (take 5 (vector_search_results r))))
      else [])"

definition row_line :: "nat \<Rightarrow> py_dict \<Rightarrow> string" where
  "row_line i res =
     ''  '' @ str_nat i @ ''. ''
     @ join '', '' (map (\<lambda>(k, v). k @ '': '' @ v) (filter (\<lambda>(k, v). v \<noteq> []) res))"

definition direct_result_lines :: "direct_result \<Rightarrow> string list" where
  "direct_result_lines dr =
     (description dr @ '':'') #
     map (\<lambda>(i, res). row_line i res) (enumerate1 (take 5 (results dr))) @ ['''']"

definition direct_section :: "result \<Rightarrow> string list" where
  "direct_section r =
     (if direct_sparql_results r \<noteq> []
      then ''=== ADDITIONAL SPARQL QUERY RESULTS ==='' #
           concat (map direct_result_lines (direct_sparql_results r))
      else [])"

text \<open>The schema overview; \<open>get_schema_summary\<close> is called only under the guard, and an
  exception it raises leaves the \<open>try\<close> block.\<close>

definition schema_section :: "env \<Rightarrow> result \<Rightarrow> py_error + string list" where
  "schema_section env r =
     (if vector_search_results r = [] \<and> \<not> chain_result_truthy (sparql_chain_result r)
      then (case get_schema_summary env of
              Inl e \<Rightarrow> Inl e
            | Inr schema_summary \<Rightarrow>
                Inr [''=== ONTOLOGY SCHEMA OVERVIEW ==='', schema_summary, ''''])
      else Inr [])"

definition instructions :: "string list" where
  "instructions =
     [''=== INSTRUCTIONS ==='',
      ''Based on the above information from the RDF knowledge graph:'',
      ''1. Provide a comprehensive and accurate answer to the user'' @ [SQ] @ ''s query'',
      ''2. Prioritize information from the LangChain SPARQL analysis if available'',
      ''3. Use the relevant entities and SPARQL results to provide detailed explanations'',
      ''4. Explain relationships and concepts clearly with examples where available'',
      ''5. If information is insufficient, acknowledge this and suggest related topics'',
      ''6. Focus on the most relevant information based on the query intent'']"

text \<open>\<open>_generate_comprehensive_context\<close>.\<close>

definition generate_comprehensive_context :: "env \<Rightarrow> result \<Rightarrow> string" where
  "generate_comprehensive_context env r =
     (case schema_section env r of
        Inl e \<Rightarrow> ''Error generating context: '' @ str_of_error e
      | Inr schema \<Rightarrow>
          join [NL] (info_section r @ chain_section r @ vector_section r @ direct_section r
                     @ schema @ instructions))"

section \<open>The orchestrator\<close>

text \<open>Step 1 of \<open>process_query\<close>: semantic search.\<close>

definition vector_step :: "env \<Rightarrow> int \<Rightarrow> bool \<Rightarrow> result \<Rightarrow> result" where
  "vector_step env top_k include_vector_search r =
     (if include_vector_search
      then (case vector_store env of
              Some search_similar \<Rightarrow>
                (case search_similar (cleaned_query r) top_k of
                   Inr vector_results \<Rightarrow>
                     r\<lparr> vector_search_results := vector_results,
                        processing_method := processing_method r @ [''vector_search''] \<rparr>
                 | Inl e \<Rightarrow> r\<lparr> vector_search_results := [] \<rparr>)
            | None \<Rightarrow> r\<lparr> vector_search_results := [] \<rparr>)
      else r)"

text \<open>Step 2: the chain.  A reply of \<open>None\<close> is stored and recorded before the logging
  branch calls \<open>.get\<close> on it; the \<open>AttributeError\<close> is caught like any other failure.\<close>

definition chain_step :: "env \<Rightarrow> bool \<Rightarrow> result \<Rightarrow> result" where
  "chain_step env use_sparql_chain r =
     (if use_sparql_chain \<and> sparql_chain env
      then (case query_with_langchain env (cleaned_query r) of
              Returns sparql_result \<Rightarrow>
                r\<lparr> sparql_chain_result := Some sparql_result,
                   processing_method := processing_method r @ [''sparql_chain''] \<rparr>
            | ReturnsNone \<Rightarrow>
                r\<lparr> sparql_chain_result := Some [(''error'', str_of_error AttributeError)],
                   processing_method := processing_method r @ [''sparql_chain''] \<rparr>
            | Raises e \<Rightarrow>
                r\<lparr> sparql_chain_result := Some [(''error'', str_of_error e)] \<rparr>)
      else r)"

text \<open>Step 3: the intents that get structured queries, and the loop over the synthesized
  queries; a failing query and a query without rows add nothing.\<close>

definition run_direct_query :: "env \<Rightarrow> query_spec \<Rightarrow> direct_result list" where
  "run_direct_query env query_info =
     (case query_sparql env (spec_query query_info) of
        Inl e \<Rightarrow> []
      | Inr sparql_results \<Rightarrow>
          if sparql_results \<noteq> []
          then [\<lparr> query_type = spec_type query_info, sparql_query = spec_query query_info,
                   results = sparql_results, description = spec_description query_info \<rparr>]
          else [])"

definition structured_intents :: "string list" where
  "structured_intents = [''listing'', ''hierarchical'', ''count'', ''relationship'']"

definition direct_step :: "env \<Rightarrow> result \<Rightarrow> result" where
  "direct_step env r =
     (if primary_intent (query_classification r) \<in> set structured_intents
      then let sparql_queries =
                 generate_targeted_sparql_queries (cleaned_query r) (query_classification r)
                   (key_concepts r)
           in r\<lparr> direct_sparql_results := concat (map (run_direct_query env) sparql_queries),
                 processing_method := processing_method r @ [''direct_sparql''] \<rparr>
      else r)"

text \<open>Step 4: enrichment of the top five hits.\<close>

definition enhance_step :: "env \<Rightarrow> result \<Rightarrow> result" where
  "enhance_step env r =
     (if vector_search_results r \<noteq> []
      then r\<lparr> enhanced_entities :=
                Some (map (enhance_entity_with_relations env) (take 5 (vector_search_results r))) \<rparr>
      else r)"

text \<open>\<open>process_query\<close>.  \<open>set_order\<close> is the order in which \<open>list(set(...))\<close> lists its
  elements during concept extraction.\<close>

definition process_query ::
  "env \<Rightarrow> (string list \<Rightarrow> string list) \<Rightarrow> string \<Rightarrow> int \<Rightarrow> bool \<Rightarrow> bool \<Rightarrow> failure + result" where
  "process_query env set_order user_query top_k use_sparql_chain include_vector_search =
     (let cleaned = preprocess_query user_query
      in case classify_query_enhanced cleaned of
           Inl e \<Rightarrow> Inl \<lparr> failed_query = user_query, failure_error = str_of_error e \<rparr>
         | Inr classification \<Rightarrow>
             let r0 = \<lparr> original_query = user_query,
                        cleaned_query = cleaned,
                        query_classification = classification,
                        key_concepts = extract_key_concepts_enhanced set_order cleaned,
                        vector_search_results = [],
                        sparql_chain_result = None,
                        direct_sparql_results = [],
                        enhanced_entities = None,
                        context_text = [],
                        success = True,
                        processing_method = [] \<rparr>;
                 r1 = vector_step env top_k include_vector_search r0;
                 r2 = chain_step env use_sparql_chain r1;
                 r3 = direct_step env r2;
                 r4 = enhance_step env r3
             in Inr (r4\<lparr> context_text := generate_comprehensive_context env r4 \<rparr>))"

section \<open>Properties of literal escaping\<close>

lemma keep_char_not_special:
  "keep_char c \<Longrightarrow> c \<noteq> BSL \<and> c \<noteq> DQ \<and> c \<noteq> SQ"
  by (auto simp: keep_char_def is_word_char_def is_space_char_def between_def code_def Let_def)

lemma replace_char_absent:
  "c \<notin> set s \<Longrightarrow> replace_char c rep s = s"
  by (induction s) (auto simp: replace_char_def)

lemma replace_char_removes:
  "c \<notin> set rep \<Longrightarrow> c \<notin> set (replace_char c rep s)"
  by (induction s) (auto simp: replace_char_def)

lemma replace_char_preserves_absent:
  "d \<notin> set s \<Longrightarrow> d \<notin> set rep \<Longrightarrow> d \<notin> set (replace_char c rep s)"
  by (induction s) (auto simp: replace_char_def)

lemma escape_keeps_only:
  "set (escape_sparql_string t) \<subseteq> {c. keep_char c}"
  by (auto simp: escape_sparql_string_def Let_def)

lemma escape_no_control:
  "NL \<notin> set (escape_sparql_string t) \<and> CR \<notin> set (escape_sparql_string t)
     \<and> TAB \<notin> set (escape_sparql_string t)"
proof -
  define t1 where "t1 = replace_char BSL [BSL, BSL] t"
  define t2 where "t2 = replace_char DQ [BSL, DQ] t1"
  define t3 where "t3 = replace_char SQ [BSL, SQ] t2"
  define t4 where "t4 = replace_char NL [BSL, CHR ''n''] t3"
  define t5 where "t5 = replace_char CR [BSL, CHR ''r''] t4"
  define t6 where "t6 = replace_char TAB [BSL, CHR ''t''] t5"
  have n4: "NL \<notin> set t4"
    unfolding t4_def by (rule replace_char_removes) simp
  have n5: "NL \<notin> set t5"
    unfolding t5_def using n4 by (intro replace_char_preserves_absent) simp_all
  have n6: "NL \<notin> set t6"
    unfolding t6_def using n5 by (intro replace_char_preserves_absent) simp_all
  have c5: "CR \<notin> set t5"
    unfolding t5_def by (rule replace_char_removes) simp
  have c6: "CR \<notin> set t6"
    unfolding t6_def using c5 by (intro replace_char_preserves_absent) simp_all
  have b6: "TAB \<notin> set t6"
    unfolding t6_def by (rule replace_char_removes) simp
  have "escape_sparql_string t = (if t = [] then [] else filter keep_char t6)"
    by (simp add: escape_sparql_string_def Let_def t1_def t2_def t3_def t4_def t5_def t6_def)
  with n6 c6 b6 show ?thesis by auto
qed

lemma escape_fixed_point:
  assumes "set s \<subseteq> {c. keep_char c}"
    and "NL \<notin> set s" and "CR \<notin> set s" and "TAB \<notin> set s"
  shows "escape_sparql_string s = s"
proof -
  have "BSL \<notin> set s" "DQ \<notin> set s" "SQ \<notin> set s"
    using assms(1) keep_char_not_special by blast+
  then have "escape_sparql_string s = (if s = [] then [] else filter keep_char s)"
    using assms(2-4) by (simp add: escape_sparql_string_def Let_def replace_char_absent)
  moreover have "filter keep_char s = s"
    using assms(1) by (auto simp: filter_id_conv)
  ultimately show ?thesis by simp
qed

lemma escape_twice: "escape_sparql_string (escape_sparql_string t) = escape_sparql_string t"
  using escape_keeps_only escape_no_control by (intro escape_fixed_point) auto

text \<open>
  C2.  One application of the escape function leaves no double quote, no single quote and
  no backslash in its output at all (so none that is unescaped), and every character of
  the output is a word character, whitespace, a hyphen, an underscore or a period.
\<close>

theorem escape_output_safe:
  "DQ \<notin> set (escape_sparql_string t) \<and> SQ \<notin> set (escape_sparql_string t)
     \<and> BSL \<notin> set (escape_sparql_string t)
     \<and> (\<forall>c \<in> set (escape_sparql_string t).
           is_word_char c \<or> is_space_char c \<or> c = CHR ''-'' \<or> c = CHR ''_'' \<or> c = CHR ''.'')"
proof -
  have k: "\<forall>c \<in> set (escape_sparql_string t). keep_char c"
    using escape_keeps_only by auto
  then have "DQ \<notin> set (escape_sparql_string t)" "SQ \<notin> set (escape_sparql_string t)"
    "BSL \<notin> set (escape_sparql_string t)"
    using keep_char_not_special by blast+
  with k show ?thesis by (simp add: keep_char_def)
qed

theorem escape_output_safe_witness:
  "escape_sparql_string [CHR ''a'', DQ, CHR ''-'', SQ, BSL, CHR ''b''] = ''a-b''
     \<and> DQ \<notin> set (escape_sparql_string [CHR ''a'', DQ, CHR ''-'', SQ, BSL, CHR ''b''])
     \<and> SQ \<notin> set (escape_sparql_string [CHR ''a'', DQ, CHR ''-'', SQ, BSL, CHR ''b''])
     \<and> BSL \<notin> set (escape_sparql_string [CHR ''a'', DQ, CHR ''-'', SQ, BSL, CHR ''b''])
     \<and> set (escape_sparql_string [CHR ''a'', DQ, CHR ''-'', SQ, BSL, CHR ''b''])
           \<subseteq> {c. is_word_char c \<or> is_space_char c \<or> c = CHR ''-'' \<or> c = CHR ''_'' \<or> c = CHR ''.''}"
proof -
  have e: "escape_sparql_string [CHR ''a'', DQ, CHR ''-'', SQ, BSL, CHR ''b''] = ''a-b''"
    by code_simp
  show ?thesis
    using escape_output_safe [of "[CHR ''a'', DQ, CHR ''-'', SQ, BSL, CHR ''b'']"] e
    by blast
qed

text \<open>
  C3.  The escape sequences do not survive the function: the final filter deletes the
  backslashes that the replacements have just added.  A backslash is doubled and then
  erased, and a newline is turned into the letter \<open>n\<close>; a second application therefore
  finds nothing to double and returns its argument.
\<close>

theorem escape_erases_its_escapes:
  "escape_sparql_string [CHR ''a'', BSL, CHR ''b''] = ''ab''
     \<and> escape_sparql_string (escape_sparql_string [CHR ''a'', BSL, CHR ''b''])
         = escape_sparql_string [CHR ''a'', BSL, CHR ''b'']
     \<and> escape_sparql_string [BSL] = []
     \<and> escape_sparql_string [CHR ''a'', NL, CHR ''b''] = ''anb''"
  by code_simp

section \<open>The matcher and the language of a pattern\<close>

lemma nullable_lang: "nullable r \<longleftrightarrow> [] \<in> lang r"
  by (induction r) (auto intro: star.star_empty)

lemma star_cons:
  "c # w \<in> star L \<longleftrightarrow> (\<exists>u v. w = u @ v \<and> c # u \<in> L \<and> v \<in> star L)"
proof
  assume "c # w \<in> star L"
  then show "\<exists>u v. w = u @ v \<and> c # u \<in> L \<and> v \<in> star L"
  proof (induction "c # w" arbitrary: w rule: star.induct)
    case (star_append u v)
    show ?case
    proof (cases u)
      case Nil
      with star_append show ?thesis by simp
    next
      case (Cons d u')
      with star_append(1,2,4) show ?thesis by auto
    qed
  qed
next
  assume "\<exists>u v. w = u @ v \<and> c # u \<in> L \<and> v \<in> star L"
  then obtain u v where "w = u @ v" "c # u \<in> L" "v \<in> star L" by blast
  then show "c # w \<in> star L"
    using star.star_append [of "c # u" L v] by simp
qed

lemma deriv_lang: "w \<in> lang (deriv c r) \<longleftrightarrow> c # w \<in> lang r"
proof (induction r arbitrary: w)
  case (Seq r s)
  show ?case
  proof (cases "nullable r")
    case True
    then have n: "[] \<in> lang r" by (simp add: nullable_lang)
    show ?thesis
    proof
      assume "w \<in> lang (deriv c (Seq r s))"
      with True Seq show "c # w \<in> lang (Seq r s)"
        using n by (auto simp: Cons_eq_append_conv)
    next
      assume "c # w \<in> lang (Seq r s)"
      then obtain u v where uv: "c # w = u @ v" "u \<in> lang r" "v \<in> lang s" by auto
      show "w \<in> lang (deriv c (Seq r s))"
      proof (cases u)
        case Nil
        with uv True Seq show ?thesis by auto
      next
        case (Cons d u')
        with uv True Seq show ?thesis by auto
      qed
    qed
  next
    case False
    then have n: "[] \<notin> lang r" by (simp add: nullable_lang)
    show ?thesis
    proof
      assume "w \<in> lang (deriv c (Seq r s))"
      with False Seq show "c # w \<in> lang (Seq r s)"
        by auto (metis append_Cons)
    next
      assume "c # w \<in> lang (Seq r s)"
      then obtain u v where uv: "c # w = u @ v" "u \<in> lang r" "v \<in> lang s" by auto
      with n obtain u' where "u = c # u'" "w = u' @ v" by (cases u) auto
      with uv False Seq show "w \<in> lang (deriv c (Seq r s))" by auto
    qed
  qed
next
  case (Star r)
  show ?case
    using Star by (auto simp: star_cons)
qed auto

lemma dead_lang: "dead r \<Longrightarrow> lang r = {}"
  by (induction r rule: dead.induct) auto

text \<open>\<open>re_match\<close> decides whether a prefix of the string is in the language.\<close>

lemma re_match_lang: "re_match r s \<longleftrightarrow> (\<exists>u v. s = u @ v \<and> u \<in> lang r)"
proof (induction s arbitrary: r)
  case Nil
  show ?case by (simp add: nullable_lang)
next
  case (Cons c cs)
  have "(\<exists>u v. c # cs = u @ v \<and> u \<in> lang r)
      \<longleftrightarrow> [] \<in> lang r \<or> (\<exists>u v. cs = u @ v \<and> c # u \<in> lang r)"
    by (auto simp: Cons_eq_append_conv)
  moreover have "(\<exists>u v. cs = u @ v \<and> c # u \<in> lang r) \<longleftrightarrow> re_match (deriv c r) cs"
    by (simp add: Cons deriv_lang)
  moreover have "\<not> re_match (deriv c r) cs" if "dead r"
  proof -
    have "lang r = {}" using that by (rule dead_lang)
    then show ?thesis by (simp add: Cons deriv_lang)
  qed
  ultimately show ?case
    by (auto simp: nullable_lang)
qed

text \<open>\<open>re_search\<close> decides whether a substring of the string is in the language.\<close>

lemma re_search_lang: "re_search r s \<longleftrightarrow> (\<exists>u v w. s = u @ v @ w \<and> v \<in> lang r)"
proof (induction s)
  case Nil
  show ?case by (simp add: nullable_lang)
next
  case (Cons c cs)
  have "(\<exists>u v w. c # cs = u @ v @ w \<and> v \<in> lang r)
      \<longleftrightarrow> (\<exists>v w. c # cs = v @ w \<and> v \<in> lang r) \<or> (\<exists>u v w. cs = u @ v @ w \<and> v \<in> lang r)"
  proof
    assume "\<exists>u v w. c # cs = u @ v @ w \<and> v \<in> lang r"
    then obtain u v w where e: "c # cs = u @ v @ w" "v \<in> lang r" by blast
    show "(\<exists>v w. c # cs = v @ w \<and> v \<in> lang r) \<or> (\<exists>u v w. cs = u @ v @ w \<and> v \<in> lang r)"
    proof (cases u)
      case Nil
      with e show ?thesis by auto
    next
      case (Cons d u')
      with e have "cs = u' @ v @ w" by simp
      with e(2) show ?thesis by blast
    qed
  next
    assume "(\<exists>v w. c # cs = v @ w \<and> v \<in> lang r) \<or> (\<exists>u v w. cs = u @ v @ w \<and> v \<in> lang r)"
    then show "\<exists>u v w. c # cs = u @ v @ w \<and> v \<in> lang r"
    proof
      assume "\<exists>v w. c # cs = v @ w \<and> v \<in> lang r"
      then obtain v w where "c # cs = [] @ v @ w" "v \<in> lang r" by auto
      then show ?thesis by blast
    next
      assume "\<exists>u v w. cs = u @ v @ w \<and> v \<in> lang r"
      then obtain u v w where "c # cs = (c # u) @ v @ w" "v \<in> lang r" by auto
      then show ?thesis by blast
    qed
  qed
  then show ?case
    using Cons re_match_lang [of r "c # cs"] by (simp del: re_match.simps)
qed

section \<open>Properties of intent classification\<close>

lemma fold_pattern_scores:
  "fold (\<lambda>(intent, patterns) d. AList.update intent (f patterns) d)
     [(''definition'', p1), (''relationship'', p2), (''property'', p3), (''listing'', p4),
      (''comparison'', p5), (''hierarchical'', p6), (''existence'', p7), (''count'', p8)] []
   = [(''definition'', f p1), (''relationship'', f p2), (''property'', f p3),
      (''listing'', f p4), (''comparison'', f p5), (''hierarchical'', f p6),
      (''existence'', f p7), (''count'', f p8)]"
  by simp

lemma fold_keyword_scores:
  "fold (\<lambda>(intent, keywords) d. AList.update intent (dict_get d intent z + g keywords) d)
     [(''definition'', k1), (''relationship'', k2), (''property'', k3), (''listing'', k4),
      (''comparison'', k5), (''hierarchical'', k6), (''existence'', k7), (''count'', k8)]
     [(''definition'', a1), (''relationship'', a2), (''property'', a3), (''listing'', a4),
      (''comparison'', a5), (''hierarchical'', a6), (''existence'', a7), (''count'', a8)]
   = [(''definition'', a1 + g k1), (''relationship'', a2 + g k2), (''property'', a3 + g k3),
      (''listing'', a4 + g k4), (''comparison'', a5 + g k5), (''hierarchical'', a6 + g k6),
      (''existence'', a7 + g k7), (''count'', a8 + g k8)]"
  by (simp add: dict_get_def)

text \<open>The score map after both loops: one entry per intent, in table order.\<close>

lemma intent_scores_eq:
  "intent_scores ql =
     map (\<lambda>((intent, patterns), (intent', keywords)).
            (intent, of_nat (pattern_score ql patterns) + of_nat (keyword_score ql keywords) * (1 / 2)))
         (zip query_patterns intent_keywords)"
  unfolding intent_scores_def query_patterns_def intent_keywords_def Let_def
    fold_pattern_scores fold_keyword_scores
  by simp

lemma intent_scores_keys: "map fst (intent_scores ql) = map fst query_patterns"
  unfolding intent_scores_eq by (simp add: query_patterns_def intent_keywords_def)

lemma general_not_intent: "''general'' \<notin> set (map fst query_patterns)"
  by (simp add: query_patterns_def)

lemma intent_scores_entry:
  assumes "(i, s) \<in> set (intent_scores ql)"
  obtains ps j ks where "(i, ps) \<in> set query_patterns" "(j, ks) \<in> set intent_keywords"
    "s = of_nat (pattern_score ql ps) + of_nat (keyword_score ql ks) * (1 / 2)"
proof -
  let ?f = "\<lambda>((intent, patterns), (intent' :: string, keywords)).
            (intent :: string, (of_nat (pattern_score ql patterns) :: rat)
               + of_nat (keyword_score ql keywords) * (1 / 2))"
  have "(i, s) \<in> ?f ` set (zip query_patterns intent_keywords)"
    using assms unfolding intent_scores_eq by simp
  then obtain z where z: "z \<in> set (zip query_patterns intent_keywords)" and e: "(i, s) = ?f z"
    by blast
  obtain a ps j ks where zz: "z = ((a, ps), (j, ks))"
    by (metis prod.exhaust)
  have "(a, ps) \<in> set query_patterns" "(j, ks) \<in> set intent_keywords"
    using z zz by (auto dest: set_zip_leftD set_zip_rightD)
  moreover have "a = i" "s = of_nat (pattern_score ql ps) + of_nat (keyword_score ql ks) * (1 / 2)"
    using e zz by simp_all
  ultimately show ?thesis using that by blast
qed

lemma intent_scores_nonneg:
  assumes "(i, s) \<in> set (intent_scores ql)"
  shows "0 \<le> s"
  using assms by (rule intent_scores_entry) simp

lemma intent_scores_zero:
  assumes "\<forall>(i, ps) \<in> set query_patterns. pattern_score ql ps = 0"
    and "\<forall>(i, ks) \<in> set intent_keywords. keyword_score ql ks = 0"
    and "(i, s) \<in> set (intent_scores ql)"
  shows "s = 0"
proof -
  from assms(3) obtain ps j ks where
    "(i, ps) \<in> set query_patterns" "(j, ks) \<in> set intent_keywords"
    "s = of_nat (pattern_score ql ps) + of_nat (keyword_score ql ks) * (1 / 2)"
    by (rule intent_scores_entry)
  moreover from this assms(1,2) have "pattern_score ql ps = 0" "keyword_score ql ks = 0"
    by blast+
  ultimately show ?thesis by simp
qed

lemma sorted_desc_set: "set (sorted_desc f xs) = set xs"
  by (simp add: sorted_desc_def)

lemma sorted_desc_head_max:
  assumes "sorted_desc f xs = y # ys" and "x \<in> set xs"
  shows "f x \<le> f y"
proof -
  have "sorted (map (\<lambda>x. - f x) (sorted_desc f xs))"
    unfolding sorted_desc_def by (rule sorted_sort_key)
  then have "sorted (map (\<lambda>x. - f x) (y # ys))"
    by (simp only: assms(1))
  then have "\<forall>z \<in> set ys. f z \<le> f y"
    by simp
  moreover have "x \<in> set (y # ys)"
    using assms sorted_desc_set [of f xs] by simp
  ultimately show ?thesis by auto
qed

lemma sorted_desc_keys: "set (map g (sorted_desc f xs)) = set (map g xs)"
  by (simp add: sorted_desc_def)

lemma classify_cases:
  obtains i0 s0 rest where
    "sorted_desc snd (intent_scores (strip (lower q))) = (i0, s0) # rest"
    "classify_query_enhanced q =
       Inr \<lparr> primary_intent = (if s0 > 0 then i0 else ''general''),
             secondary_intent =
               (case rest of [] \<Rightarrow> None | (i1, s1) # _ \<Rightarrow> if s1 > 0 then Some i1 else None),
             confidence = s0,
             all_scores = (i0, s0) # rest \<rparr>"
proof -
  have "length (sorted_desc snd (intent_scores (strip (lower q)))) = 8"
    using arg_cong [OF intent_scores_keys [of "strip (lower q)"], of length]
    by (simp add: sorted_desc_def query_patterns_def)
  then obtain x rest where e: "sorted_desc snd (intent_scores (strip (lower q))) = x # rest"
    by (cases "sorted_desc snd (intent_scores (strip (lower q)))") auto
  obtain i0 s0 where x: "x = (i0, s0)" by (cases x)
  show ?thesis
    using e x by (intro that [of i0 s0 rest]) (simp_all add: classify_query_enhanced_def Let_def)
qed

text \<open>
  C8.  Every query has a classification.  Its score map holds the eight intents, no score
  in it exceeds the confidence, and the primary intent is \<open>general\<close> exactly when every
  score is 0; otherwise the primary intent is a key of the score map and its score there
  is the confidence, so it is at least every other intent's score.
\<close>

theorem primary_intent_maximal:
  "\<exists>c. classify_query_enhanced q = Inr c
      \<and> set (map fst (all_scores c)) = set (map fst query_patterns)
      \<and> (\<forall>(i, s) \<in> set (all_scores c). s \<le> confidence c)
      \<and> (primary_intent c \<noteq> ''general''
           \<longrightarrow> map_of (all_scores c) (primary_intent c) = Some (confidence c))
      \<and> ((\<forall>(i, s) \<in> set (all_scores c). s = 0) \<longleftrightarrow> primary_intent c = ''general'')"
proof -
  let ?ql = "strip (lower q)"
  obtain i0 s0 rest where
    srt: "sorted_desc snd (intent_scores ?ql) = (i0, s0) # rest" and
    cls: "classify_query_enhanced q =
       Inr \<lparr> primary_intent = (if s0 > 0 then i0 else ''general''),
             secondary_intent =
               (case rest of [] \<Rightarrow> None | (i1, s1) # _ \<Rightarrow> if s1 > 0 then Some i1 else None),
             confidence = s0,
             all_scores = (i0, s0) # rest \<rparr>"
    by (rule classify_cases)
  have set_eq: "set ((i0, s0) # rest) = set (intent_scores ?ql)"
    using sorted_desc_set [of snd "intent_scores ?ql"] srt by simp
  have keys: "set (map fst ((i0, s0) # rest)) = set (map fst query_patterns)"
  proof -
    have "set (map fst ((i0, s0) # rest)) = set (map fst (intent_scores ?ql))"
      using sorted_desc_keys [of fst snd "intent_scores ?ql"] srt by simp
    also have "\<dots> = set (map fst query_patterns)" by (simp only: intent_scores_keys)
    finally show ?thesis .
  qed
  have mem: "(i, s) \<in> set (intent_scores ?ql)" if "(i, s) \<in> set ((i0, s0) # rest)" for i s
    using that set_eq by blast
  have le: "s \<le> s0" if "(i, s) \<in> set ((i0, s0) # rest)" for i s
    using sorted_desc_head_max [OF srt mem [OF that]] by simp
  have nonneg: "0 \<le> s" if "(i, s) \<in> set ((i0, s0) # rest)" for i s
    using intent_scores_nonneg [OF mem [OF that]] .
  have "(i0, s0) \<in> set (intent_scores ?ql)"
    by (rule mem) simp
  then have "i0 \<in> set (map fst (intent_scores ?ql))"
    by force
  then have i0_intent: "i0 \<noteq> ''general''"
    using general_not_intent by (auto simp only: intent_scores_keys)
  have zero_iff: "(\<forall>(i, s) \<in> set ((i0, s0) # rest). s = 0) \<longleftrightarrow> \<not> s0 > 0"
  proof
    assume "\<forall>(i, s) \<in> set ((i0, s0) # rest). s = 0"
    then show "\<not> s0 > 0" by simp
  next
    assume n: "\<not> s0 > 0"
    have "s = 0" if "(i, s) \<in> set ((i0, s0) # rest)" for i s
      using le [OF that] nonneg [OF that] n by simp
    then show "\<forall>(i, s) \<in> set ((i0, s0) # rest). s = 0" by blast
  qed
  let ?c = "\<lparr> primary_intent = (if s0 > 0 then i0 else ''general''),
             secondary_intent =
               (case rest of [] \<Rightarrow> None | (i1, s1) # _ \<Rightarrow> if s1 > 0 then Some i1 else None),
             confidence = s0,
             all_scores = (i0, s0) # rest \<rparr>"
  have 1: "set (map fst (all_scores ?c)) = set (map fst query_patterns)"
    using keys by simp
  have 2: "\<forall>(i, s) \<in> set (all_scores ?c). s \<le> confidence ?c"
    using le by (simp del: set_simps) blast
  have 3: "primary_intent ?c \<noteq> ''general''
             \<longrightarrow> map_of (all_scores ?c) (primary_intent ?c) = Some (confidence ?c)"
    by simp
  have 4: "(\<forall>(i, s) \<in> set (all_scores ?c). s = 0) \<longleftrightarrow> primary_intent ?c = ''general''"
    using zero_iff i0_intent by (simp del: set_simps)
  from cls 1 2 3 4 show ?thesis by blast
qed


lemma classify_list_all_animals:
  "classify_query_enhanced ''list all animals'' =
     Inr \<lparr> primary_intent = ''listing'', secondary_intent = None, confidence = 2,
           all_scores = [(''listing'', 2), (''definition'', 0), (''relationship'', 0),
             (''property'', 0), (''comparison'', 0), (''hierarchical'', 0),
             (''existence'', 0), (''count'', 0)] \<rparr>"
  by code_simp

theorem primary_intent_maximal_witness:
  "classify_query_enhanced ''list all animals'' =
     Inr \<lparr> primary_intent = ''listing'', secondary_intent = None, confidence = 2,
           all_scores = [(''listing'', 2), (''definition'', 0), (''relationship'', 0),
             (''property'', 0), (''comparison'', 0), (''hierarchical'', 0),
             (''existence'', 0), (''count'', 0)] \<rparr>
   \<and> ''listing'' \<noteq> ''general''
   \<and> map_of [(''listing'', 2 :: rat), (''definition'', 0), (''relationship'', 0),
             (''property'', 0), (''comparison'', 0), (''hierarchical'', 0),
             (''existence'', 0), (''count'', 0)] ''listing'' = Some 2"
  using primary_intent_maximal [of "''list all animals''"] classify_list_all_animals
  by auto

section \<open>Properties of concept extraction\<close>

lemma insort_key_map:
  "insort_key f (g x) (map g ys) = map g (insort_key (\<lambda>y. f (g y)) x ys)"
  by (induction ys) simp_all

lemma sort_key_map:
  "sort_key f (map g xs) = map g (sort_key (\<lambda>y. f (g y)) xs)"
  by (induction xs) (simp_all add: insort_key_map)

text \<open>Ranking is a stable sort of the candidates by negated score.\<close>

lemma rank_concepts_sort:
  "rank_concepts q xs = sort_key (\<lambda>c. - concept_score q c) xs"
  by (simp add: rank_concepts_def sorted_desc_def sort_key_map comp_def)

lemma rank_concepts_descending:
  "sorted_wrt (\<lambda>a b. concept_score q b \<le> concept_score q a) (rank_concepts q xs)"
  using sorted_sort_key [of "\<lambda>c. - concept_score q c" xs]
  by (simp add: rank_concepts_sort sorted_map)

lemma set_listing_remdups: "set_listing remdups"
  by (simp add: set_listing_def)

lemma set_listing_Nil: "set_listing set_order \<Longrightarrow> set_order [] = []"
  by (metis set_listing_def empty_set set_empty)

lemma set_listing_two:
  assumes "set_listing set_order" and "a \<noteq> b"
  shows "set_order [a, b] = [a, b] \<or> set_order [a, b] = [b, a]"
proof -
  let ?ys = "set_order [a, b]"
  have d: "distinct ?ys" and s: "set ?ys = {a, b}"
    using assms(1) by (simp_all add: set_listing_def)
  have "length ?ys = card {a, b}"
    using d s by (metis distinct_card)
  then have "length ?ys = 2" using assms(2) by simp
  then obtain x y where xy: "?ys = [x, y]"
    by (cases ?ys; cases "tl ?ys"; cases "tl (tl ?ys)") auto
  with d s have "x \<noteq> y" "{x, y} = {a, b}" by auto
  then have "(x = a \<and> y = b) \<or> (x = b \<and> y = a)" by (auto simp: doubleton_eq_iff)
  with xy show ?thesis by auto
qed


text \<open>
  C6 (as stated).  For the query that is the quoted phrase \<open>"Cat"\<close>, the unigram \<open>cat\<close> and
  the quoted phrase \<open>Cat\<close> are both returned, although they are equal up to letter case.
\<close>

theorem case_duplicates_survive:
  "extract_key_concepts_enhanced remdups [DQ, CHR ''C'', CHR ''a'', CHR ''t'', DQ] = [''cat'', ''Cat'']
     \<and> lower ''Cat'' = lower ''cat''"
  by code_simp

text \<open>
  C6 (amended).  The returned list is sorted descending by score; concepts of equal score
  keep the order in which the set of candidates was listed; the list holds exactly the
  candidates of the query, each once, where two candidates are the same only if they are
  equal as strings.
\<close>

theorem concepts_sorted_by_score:
  assumes "set_listing set_order"
  shows "sorted_wrt (\<lambda>a b. concept_score q b \<le> concept_score q a)
           (extract_key_concepts_enhanced set_order q)
       \<and> distinct (extract_key_concepts_enhanced set_order q)
       \<and> set (extract_key_concepts_enhanced set_order q) = set (candidate_concepts q)
       \<and> filter (\<lambda>c. concept_score q c = k) (extract_key_concepts_enhanced set_order q)
           = filter (\<lambda>c. concept_score q c = k) (set_order (candidate_concepts q))"
proof -
  let ?all = "set_order (candidate_concepts q)"
  have d: "distinct ?all" and s: "set ?all = set (candidate_concepts q)"
    using assms by (simp_all add: set_listing_def)
  have 1: "sorted_wrt (\<lambda>a b. concept_score q b \<le> concept_score q a) (rank_concepts q ?all)"
    by (rule rank_concepts_descending)
  have 2: "distinct (rank_concepts q ?all)"
    using d by (simp add: rank_concepts_sort)
  have 3: "set (rank_concepts q ?all) = set (candidate_concepts q)"
    using s by (simp add: rank_concepts_sort)
  have "filter (\<lambda>c. - concept_score q c = - k) (sort_key (\<lambda>c. - concept_score q c) ?all)
          = filter (\<lambda>c. - concept_score q c = - k) ?all"
    by (rule sort_key_stable)
  then have 4: "filter (\<lambda>c. concept_score q c = k) (rank_concepts q ?all)
          = filter (\<lambda>c. concept_score q c = k) ?all"
    by (simp add: rank_concepts_sort)
  from 1 2 3 4 show ?thesis
    by (simp only: extract_key_concepts_enhanced_def)
qed

theorem concepts_sorted_by_score_witness:
  "set_listing (remdups :: string list \<Rightarrow> string list)
     \<and> extract_key_concepts_enhanced remdups ''big cats and big dogs'' = [''big'', ''cats'', ''dogs'']
     \<and> map (concept_score ''big cats and big dogs'') [''big'', ''cats'', ''dogs''] = [3, 2, 1]
     \<and> sorted_wrt (\<lambda>a b. concept_score ''big cats and big dogs'' b
                           \<le> concept_score ''big cats and big dogs'' a)
           (extract_key_concepts_enhanced remdups ''big cats and big dogs'')
     \<and> distinct (extract_key_concepts_enhanced remdups ''big cats and big dogs'')"
proof -
  have e: "extract_key_concepts_enhanced remdups ''big cats and big dogs'' = [''big'', ''cats'', ''dogs'']"
    by code_simp
  have m: "map (concept_score ''big cats and big dogs'') [''big'', ''cats'', ''dogs''] = [3, 2, 1]"
    by code_simp
  show ?thesis
    using concepts_sorted_by_score [OF set_listing_remdups, of "''big cats and big dogs''"]
      set_listing_remdups e m
    by blast
qed

lemma stop_words_shape:
  "list_all (\<lambda>w. w \<noteq> [] \<and> list_all is_ascii_letter w) stop_words"
  by code_simp

lemma ascii_letter_word: "is_ascii_letter c \<Longrightarrow> is_word_char c"
  by (simp add: is_ascii_letter_def is_word_char_def Let_def) blast

lemma space_not_word: "\<not> is_word_char (CHR '' '')"
  by code_simp

lemma lower_space: "lower_char (CHR '' '') = CHR '' ''"
  by code_simp

lemma quotes_not_lowered_letters:
  "\<not> is_ascii_letter (lower_char DQ)" "\<not> is_ascii_letter (lower_char SQ)"
  "\<not> is_ascii_letter (CHR '' '')"
  by code_simp+

lemma word_runs_word:
  assumes "w \<noteq> []" and "\<forall>c \<in> set w. is_word_char c"
  shows "word_runs w = [w]"
proof -
  obtain c cs where w: "w = c # cs" using assms(1) by (cases w) auto
  have tw: "takeWhile is_word_char cs = cs" and dw: "dropWhile is_word_char cs = []"
    using assms(2) w by simp_all
  show ?thesis using assms(2) w by (simp add: tw dw)
qed

lemma word_runs_word_space:
  assumes "w \<noteq> []" and "\<forall>c \<in> set w. is_word_char c"
  shows "word_runs (w @ CHR '' '' # rest) = w # word_runs rest"
proof -
  obtain c cs where w: "w = c # cs" using assms(1) by (cases w) auto
  have all: "\<And>x. x \<in> set cs \<Longrightarrow> is_word_char x" using assms(2) w by simp
  have "takeWhile is_word_char (cs @ CHR '' '' # rest) = cs"
    using all space_not_word by simp
  moreover have "dropWhile is_word_char (cs @ CHR '' '' # rest) = CHR '' '' # rest"
    using all space_not_word by simp
  ultimately show ?thesis using assms(2) w space_not_word by simp
qed

lemma word_runs_join:
  assumes "\<forall>w \<in> set ws. w \<noteq> [] \<and> (\<forall>c \<in> set w. is_word_char c)"
  shows "word_runs (join '' '' ws) = ws"
  using assms
proof (induction "'' ''" ws rule: join.induct)
  case 1
  show ?case by simp
next
  case (2 x)
  then show ?case by (simp add: word_runs_word)
next
  case (3 x y ys)
  then have "word_runs (join '' '' (y # ys)) = y # ys" by simp
  moreover have "word_runs (x @ CHR '' '' # join '' '' (y # ys)) = x # word_runs (join '' '' (y # ys))"
    using 3(2) by (intro word_runs_word_space) simp_all
  ultimately show ?case by simp
qed

lemma lower_join: "lower (join '' '' ws) = join '' '' (map lower ws)"
  by (induction "'' ''" ws rule: join.induct) (simp_all add: lower_def lower_space)

lemma set_join_space: "set (join '' '' ws) \<subseteq> insert (CHR '' '') (\<Union> (set ` set ws))"
  by (induction "'' ''" ws rule: join.induct) auto

lemma find_quoted_none: "q \<notin> set s \<Longrightarrow> find_quoted q s = []"
  by (induction s) simp_all

lemma stop_word_letters:
  assumes "w \<in> set stop_words"
  shows "w \<noteq> [] \<and> (\<forall>c \<in> set w. is_ascii_letter c)"
  using stop_words_shape assms by (simp add: list_all_iff)

text \<open>The candidates of a query made of stop words only.\<close>

lemma stop_word_candidates:
  assumes "\<forall>w \<in> set ws. lower w \<in> set stop_words"
  shows "candidate_concepts (join '' '' ws) = []"
proof -
  let ?q = "join '' '' ws"
  have letters: "w \<noteq> [] \<and> (\<forall>c \<in> set w. is_ascii_letter c)" if "w \<in> set (map lower ws)" for w
    using that assms stop_word_letters by auto
  then have "word_runs (join '' '' (map lower ws)) = map lower ws"
    by (intro word_runs_join) (auto intro: ascii_letter_word)
  then have "findall_words (lower ?q) = map lower ws"
    using letters by (simp add: findall_words_def lower_join list_all_iff)
  moreover have "filter (\<lambda>word. word \<notin> set stop_words \<and> length word > 2) (map lower ws) = []"
    using assms by (simp add: filter_empty_conv)
  moreover have "DQ \<notin> set ?q \<and> SQ \<notin> set ?q"
  proof -
    have "is_ascii_letter (lower_char c)" if "c \<in> set w" "w \<in> set ws" for c w
    proof -
      have "lower_char c \<in> set (lower w)" using that(1) by (simp add: lower_def)
      moreover have "lower w \<in> set (map lower ws)" using that(2) by simp
      ultimately show ?thesis using letters by blast
    qed
    then have nq: "c \<noteq> DQ \<and> c \<noteq> SQ" if "c \<in> set w" "w \<in> set ws" for c w
      using that quotes_not_lowered_letters by blast
    have "c = CHR '' '' \<or> (\<exists>w \<in> set ws. c \<in> set w)" if "c \<in> set ?q" for c
      using that set_join_space [of ws] by blast
    then have "c \<noteq> DQ \<and> c \<noteq> SQ" if "c \<in> set ?q" for c
      using that nq by fastforce
    then show ?thesis by blast
  qed
  ultimately show ?thesis
    by (simp add: candidate_concepts_def find_quoted_none)
qed

subsection \<open>Stop words and the classifier's tables\<close>

lemma contains_sublist: "contains sub s \<longleftrightarrow> sublist sub s"
  by (induction s) (simp_all add: sublist_Cons_right)

lemma sublist_trans: "sublist a b \<Longrightarrow> sublist b c \<Longrightarrow> sublist a c"
  unfolding sublist_def by (metis append.assoc)

lemma as_literal_lang: "as_literal r = Some u \<Longrightarrow> lang r = {u}"
proof (induction r arbitrary: u)
  case (Seq r s)
  then obtain a b where "as_literal r = Some a" "as_literal s = Some b" "u = a @ b"
    by (auto split: option.splits)
  with Seq show ?case by auto
qed auto

lemma requires_sound: "requires c r \<Longrightarrow> v \<in> lang r \<Longrightarrow> sublist c v"
proof (induction r arbitrary: v)
  case (Seq r s)
  show ?case
  proof (cases "as_literal (Seq r s)")
    case (Some u)
    then have "lang (Seq r s) = {u}" by (rule as_literal_lang)
    then have "v = u" using Seq.prems(2) by (simp only: singleton_iff)
    moreover have "contains c u" using Seq.prems(1) Some by simp
    ultimately show ?thesis by (simp add: contains_sublist)
  next
    case None
    from Seq.prems(2) obtain a b where v: "v = a @ b" "a \<in> lang r" "b \<in> lang s" by auto
    from Seq.prems(1) None have "requires c r \<or> requires c s" by simp
    then show ?thesis
    proof
      assume "requires c r"
      then have "sublist c a" using v(2) by (rule Seq.IH(1))
      then show ?thesis unfolding v(1) by (rule sublist_trans) (rule sublist_append_rightI)
    next
      assume "requires c s"
      then have "sublist c b" using v(3) by (rule Seq.IH(2))
      then show ?thesis unfolding v(1) by (rule sublist_trans) (rule sublist_append_leftI)
    qed
  qed
qed (auto simp: contains_sublist)

lemma re_search_requires:
  assumes "requires c r" and "re_search r q"
  shows "sublist c q"
proof -
  from assms(2) obtain u v w where q: "q = u @ v @ w" and v: "v \<in> lang r"
    by (auto simp: re_search_lang)
  have "sublist c v" using assms(1) v by (rule requires_sound)
  moreover have "sublist v q" unfolding q by (rule sublist_appendI)
  ultimately show ?thesis by (rule sublist_trans)
qed

lemma patterns_require_core:
  "list_all (\<lambda>(i, ps). list_all (\<lambda>p. list_ex (\<lambda>c. requires c p) trigger_cores) ps)
     query_patterns"
  by code_simp

lemma keywords_hold_core:
  "list_all (\<lambda>(i, ks). list_all (\<lambda>k. list_ex (\<lambda>c. contains c k) trigger_cores) ks)
     intent_keywords"
  by code_simp

lemma stop_words_without_core:
  "list_all (\<lambda>w. w \<in> set scoring_stop_words \<or> list_all (\<lambda>c. \<not> contains c w) trigger_cores)
     stop_words"
  by code_simp

lemma trigger_cores_shape:
  "list_all (\<lambda>c. c \<noteq> [] \<and> CHR '' '' \<notin> set c) trigger_cores"
  by code_simp

text \<open>A text that holds none of the table words scores 0 for every intent.\<close>

lemma no_core_no_pattern:
  assumes "\<forall>c \<in> set trigger_cores. \<not> sublist c q" and "(i, ps) \<in> set query_patterns"
  shows "pattern_score q ps = 0"
proof -
  have "\<not> re_search p q" if pm: "p \<in> set ps" for p
  proof
    assume m: "re_search p q"
    have "list_all (\<lambda>p. list_ex (\<lambda>c. requires c p) trigger_cores) ps"
      using patterns_require_core assms(2) by (auto simp: list_all_iff)
    then obtain c where "c \<in> set trigger_cores" "requires c p"
      using pm by (auto simp: list_all_iff list_ex_iff)
    then show False using re_search_requires [OF _ m] assms(1) by blast
  qed
  then show ?thesis by (simp add: pattern_score_def filter_empty_conv)
qed

lemma no_core_no_keyword:
  assumes "\<forall>c \<in> set trigger_cores. \<not> sublist c q" and "(i, ks) \<in> set intent_keywords"
  shows "keyword_score q ks = 0"
proof -
  have "\<not> contains k q" if km: "k \<in> set ks" for k
  proof
    assume "contains k q"
    then have kq: "sublist k q" by (simp add: contains_sublist)
    have "list_all (\<lambda>k. list_ex (\<lambda>c. contains c k) trigger_cores) ks"
      using keywords_hold_core assms(2) by (auto simp: list_all_iff)
    then obtain c where "c \<in> set trigger_cores" "contains c k"
      using km by (auto simp: list_all_iff list_ex_iff)
    then have "c \<in> set trigger_cores" "sublist c q"
      using kq by (auto simp: contains_sublist intro: sublist_trans)
    then show False using assms(1) by blast
  qed
  then show ?thesis by (simp add: keyword_score_def filter_empty_conv)
qed

lemma sublist_join:
  assumes "c \<noteq> []" and "CHR '' '' \<notin> set c" and "sublist c (join '' '' ws)"
  shows "\<exists>w \<in> set ws. sublist c w"
  using assms(3)
proof (induction "'' ''" ws rule: join.induct)
  case 1
  then show ?case using assms(1) by simp
next
  case (2 x)
  then show ?case by simp
next
  case (3 x y ys)
  let ?R = "join '' '' (y # ys)"
  have np: "\<not> prefix c (CHR '' '' # ?R)"
    using assms(1,2) by (cases c) auto
  from 3(2) have "sublist c (x @ CHR '' '' # ?R)" by simp
  then consider "sublist c x" | "sublist c (CHR '' '' # ?R)"
    | c1 c2 where "c = c1 @ c2" "suffix c1 x" "prefix c2 (CHR '' '' # ?R)"
    by (auto simp: sublist_append)
  then show ?case
  proof cases
    case 1
    then show ?thesis by simp
  next
    case 2
    then have "sublist c ?R" using np by (simp add: sublist_Cons_right)
    then show ?thesis using 3(1) by auto
  next
    case 3
    have "c2 = []"
    proof (rule ccontr)
      assume "c2 \<noteq> []"
      then have "hd c2 = CHR '' ''" using 3(3) by (cases c2) auto
      then have "CHR '' '' \<in> set c2" using \<open>c2 \<noteq> []\<close> by (metis list.set_sel(1))
      then show False using assms(2) 3(1) by simp
    qed
    then have "suffix c x" using 3(1,2) by simp
    then show ?thesis by auto
  qed
qed

lemma sublist_strip: "sublist (strip s) s"
proof -
  let ?t = "dropWhile is_space_char s"
  have "sublist (dropWhile is_space_char (rev ?t)) (rev ?t)" by (rule sublist_dropWhile)
  then have "sublist (strip s) ?t" by (simp add: strip_def sublist_rev_left)
  moreover have "sublist ?t s" by (rule sublist_dropWhile)
  ultimately show ?thesis by (rule sublist_trans)
qed

lemma neutral_query_no_core:
  assumes "\<forall>w \<in> set ws. lower w \<in> set stop_words \<and> lower w \<notin> set scoring_stop_words"
    and "c \<in> set trigger_cores"
  shows "\<not> sublist c (strip (lower (join '' '' ws)))"
proof
  assume "sublist c (strip (lower (join '' '' ws)))"
  then have "sublist c (join '' '' (map lower ws))"
    using sublist_strip [of "lower (join '' '' ws)"] by (auto simp: lower_join intro: sublist_trans)
  moreover have "c \<noteq> []" "CHR '' '' \<notin> set c"
    using trigger_cores_shape assms(2) by (auto simp: list_all_iff)
  ultimately obtain w where w: "w \<in> set ws" "sublist c (lower w)"
    using sublist_join [of c "map lower ws"] by auto
  then have "lower w \<in> set stop_words" "lower w \<notin> set scoring_stop_words"
    using assms(1) by auto
  then have "\<not> contains c (lower w)"
    using stop_words_without_core assms(2) by (auto simp: list_all_iff)
  then show False using w(2) by (simp add: contains_sublist)
qed

lemma classify_head:
  obtains c i0 where
    "classify_query_enhanced q = Inr c"
    "(i0, confidence c) \<in> set (intent_scores (strip (lower q)))"
    "\<forall>i s. (i, s) \<in> set (intent_scores (strip (lower q))) \<longrightarrow> s \<le> confidence c"
    "primary_intent c = (if confidence c > 0 then i0 else ''general'')"
    "i0 \<noteq> ''general''"
proof -
  let ?ql = "strip (lower q)"
  obtain i0 s0 rest where
    srt: "sorted_desc snd (intent_scores ?ql) = (i0, s0) # rest" and
    cls: "classify_query_enhanced q =
       Inr \<lparr> primary_intent = (if s0 > 0 then i0 else ''general''),
             secondary_intent =
               (case rest of [] \<Rightarrow> None | (i1, s1) # _ \<Rightarrow> if s1 > 0 then Some i1 else None),
             confidence = s0,
             all_scores = (i0, s0) # rest \<rparr>"
    by (rule classify_cases)
  let ?c = "\<lparr> primary_intent = (if s0 > 0 then i0 else ''general''),
             secondary_intent =
               (case rest of [] \<Rightarrow> None | (i1, s1) # _ \<Rightarrow> if s1 > 0 then Some i1 else None),
             confidence = s0,
             all_scores = (i0, s0) # rest \<rparr>"
  have "set ((i0, s0) # rest) = set (intent_scores ?ql)"
    using sorted_desc_set [of snd "intent_scores ?ql"] srt by simp
  then have hd_mem: "(i0, s0) \<in> set (intent_scores ?ql)" by auto
  then have "i0 \<in> set (map fst (intent_scores ?ql))" by force
  then have ng: "i0 \<noteq> ''general''"
    using general_not_intent by (auto simp only: intent_scores_keys)
  have le: "s \<le> s0" if "(i, s) \<in> set (intent_scores ?ql)" for i s
    using sorted_desc_head_max [OF srt that] by simp
  show ?thesis
  proof (rule that [of ?c i0])
    show "classify_query_enhanced q = Inr ?c" by (rule cls)
    show "(i0, confidence ?c) \<in> set (intent_scores ?ql)" using hd_mem by simp
    show "\<forall>i s. (i, s) \<in> set (intent_scores ?ql) \<longrightarrow> s \<le> confidence ?c"
      using le by simp
    show "primary_intent ?c = (if confidence ?c > 0 then i0 else ''general'')" by simp
    show "i0 \<noteq> ''general''" by (rule ng)
  qed
qed

lemma keyword_entry:
  assumes "(i, ks) \<in> set intent_keywords"
  shows "\<exists>j s. (j, s) \<in> set (intent_scores ql) \<and> of_nat (keyword_score ql ks) * (1 / 2) \<le> s"
proof -
  let ?f = "\<lambda>((intent, patterns), (intent' :: string, keywords)).
            (intent :: string, (of_nat (pattern_score ql patterns) :: rat)
               + of_nat (keyword_score ql keywords) * (1 / 2))"
  have len: "length query_patterns = length intent_keywords"
    by (simp add: query_patterns_def intent_keywords_def)
  from assms obtain n where n: "n < length intent_keywords" "intent_keywords ! n = (i, ks)"
    by (auto simp: in_set_conv_nth)
  obtain a ps where a: "query_patterns ! n = (a, ps)" by (cases "query_patterns ! n")
  have "((a, ps), (i, ks)) \<in> set (zip query_patterns intent_keywords)"
    using n a len by (auto simp: in_set_zip intro!: exI [of _ n])
  then have "?f ((a, ps), (i, ks)) \<in> ?f ` set (zip query_patterns intent_keywords)"
    by (rule imageI)
  also have "?f ` set (zip query_patterns intent_keywords) = set (intent_scores ql)"
    unfolding intent_scores_eq by simp
  finally have "(a, of_nat (pattern_score ql ps) + of_nat (keyword_score ql ks) * (1 / 2))
               \<in> set (intent_scores ql)"
    by simp
  then show ?thesis
    by (intro exI [of _ a] exI [of _ "of_nat (pattern_score ql ps) + of_nat (keyword_score ql ks) * (1 / 2)"])
       simp
qed

lemma mem_sublist_join: "w \<in> set ws \<Longrightarrow> sublist w (join sep ws)"
proof (induction sep ws rule: join.induct)
  case (3 sep x y ys)
  show ?case
  proof (cases "w = x")
    case True
    then show ?thesis by simp
  next
    case False
    with 3 have "sublist w (join sep (y # ys))" by simp
    moreover have "sublist (join sep (y # ys)) ((x @ sep) @ join sep (y # ys))"
      by (rule sublist_append_leftI)
    ultimately show ?thesis by (simp add: sublist_trans)
  qed
qed simp_all

lemma sublist_dropWhile_keep:
  assumes "k \<noteq> []" and "\<not> P (hd k)" and "sublist k s"
  shows "sublist k (dropWhile P s)"
  using assms(3)
proof (induction s)
  case Nil
  then show ?case by simp
next
  case (Cons a s)
  show ?case
  proof (cases "P a")
    case True
    have "\<not> prefix k (a # s)"
      using assms(1,2) True by (cases k) auto
    with Cons.prems have "sublist k s" by (simp add: sublist_Cons_right)
    then show ?thesis using Cons.IH True by simp
  next
    case False
    then show ?thesis using Cons.prems by simp
  qed
qed

lemma sublist_strip_keep:
  assumes "k \<noteq> []" and "\<not> is_space_char (hd k)" and "\<not> is_space_char (last k)"
    and "sublist k s"
  shows "sublist k (strip s)"
proof -
  let ?t = "dropWhile is_space_char s"
  have "sublist k ?t" using assms(1,2,4) by (rule sublist_dropWhile_keep)
  then have "sublist (rev k) (rev ?t)" by simp
  moreover have "rev k \<noteq> []" "\<not> is_space_char (hd (rev k))"
    using assms(1,3) by (simp_all add: hd_rev)
  ultimately have "sublist (rev k) (dropWhile is_space_char (rev ?t))"
    by (intro sublist_dropWhile_keep)
  then show ?thesis by (simp add: strip_def sublist_rev_right)
qed

lemma ascii_letter_not_space: "is_ascii_letter c \<Longrightarrow> \<not> is_space_char c"
  by (auto simp: is_ascii_letter_def is_space_char_def between_def Let_def)

text \<open>A stop word of the query that is an intent keyword is found by the keyword scan.\<close>

lemma keyword_stop_word_scores:
  assumes "w \<in> set ws" and "lower w \<in> set stop_words"
    and "(i, ks) \<in> set intent_keywords" and "lower w \<in> set ks"
  shows "1 \<le> keyword_score (strip (lower (join '' '' ws))) ks"
proof -
  let ?k = "lower w"
  have shape: "?k \<noteq> []" "\<forall>c \<in> set ?k. is_ascii_letter c"
    using stop_word_letters [OF assms(2)] by simp_all
  then have "hd ?k \<in> set ?k" "last ?k \<in> set ?k" by simp_all
  then have ends: "\<not> is_space_char (hd ?k)" "\<not> is_space_char (last ?k)"
    using shape(2) ascii_letter_not_space by blast+
  have "sublist ?k (join '' '' (map lower ws))"
    using assms(1) by (intro mem_sublist_join) simp
  then have "sublist ?k (strip (lower (join '' '' ws)))"
    using shape(1) ends by (intro sublist_strip_keep) (simp_all add: lower_join)
  then have "?k \<in> set (filter (\<lambda>k. contains k (strip (lower (join '' '' ws)))) ks)"
    using assms(4) by (simp add: contains_sublist)
  then have "0 < length (filter (\<lambda>k. contains k (strip (lower (join '' '' ws)))) ks)"
    by (rule length_pos_if_in_set)
  then show ?thesis unfolding keyword_score_def by arith
qed

text \<open>
  C7 (as stated).  The query \<open>what\<close> consists of a stop word only, and its classification
  is \<open>definition\<close> with confidence \<open>0.5\<close>: the keyword table of that intent holds \<open>what\<close>.
\<close>

theorem stop_word_what_is_classified:
  "''what'' \<in> set stop_words
     \<and> classify_query_enhanced ''what'' =
         Inr \<lparr> primary_intent = ''definition'', secondary_intent = None, confidence = 1 / 2,
               all_scores = [(''definition'', 1 / 2), (''relationship'', 0), (''property'', 0),
                 (''listing'', 0), (''comparison'', 0), (''hierarchical'', 0),
                 (''existence'', 0), (''count'', 0)] \<rparr>"
  by code_simp

text \<open>
  C7 (amended).  For every query that is a sequence of stop words (in any letter case)
  separated by single spaces, concept extraction returns the empty list and a
  classification exists.  The classification is \<open>general\<close> with confidence 0 if none of the
  words is \<open>what\<close>, \<open>show\<close>, \<open>find\<close>, \<open>list\<close>, \<open>describe\<close>, \<open>explain\<close>, \<open>define\<close>, \<open>have\<close> or
  \<open>tell\<close>; if one of the words is itself an intent keyword, the primary intent is not
  \<open>general\<close> and the confidence is at least \<open>0.5\<close>.
\<close>

theorem stop_words_only:
  assumes "set_listing set_order" and "\<forall>w \<in> set ws. lower w \<in> set stop_words"
  shows "extract_key_concepts_enhanced set_order (join '' '' ws) = []
       \<and> (\<exists>c. classify_query_enhanced (join '' '' ws) = Inr c
              \<and> ((\<forall>w \<in> set ws. lower w \<notin> set scoring_stop_words)
                    \<longrightarrow> primary_intent c = ''general'' \<and> confidence c = 0)
              \<and> ((\<exists>w \<in> set ws. lower w \<in> set (concat (map snd intent_keywords)))
                    \<longrightarrow> primary_intent c \<noteq> ''general'' \<and> 1 / 2 \<le> confidence c))"
proof -
  let ?q = "join '' '' ws"
  let ?ql = "strip (lower ?q)"
  have "candidate_concepts ?q = []"
    using assms(2) by (rule stop_word_candidates)
  then have 1: "extract_key_concepts_enhanced set_order ?q = []"
    using set_listing_Nil [OF assms(1)]
    by (simp add: extract_key_concepts_enhanced_def rank_concepts_sort)
  obtain c i0 where
    cls: "classify_query_enhanced ?q = Inr c" and
    top: "(i0, confidence c) \<in> set (intent_scores ?ql)" and
    le: "\<forall>i s. (i, s) \<in> set (intent_scores ?ql) \<longrightarrow> s \<le> confidence c" and
    prim: "primary_intent c = (if confidence c > 0 then i0 else ''general'')" and
    ng: "i0 \<noteq> ''general''"
    by (rule classify_head [where q = "join '' '' ws"])
  have 2: "primary_intent c = ''general'' \<and> confidence c = 0"
    if "\<forall>w \<in> set ws. lower w \<notin> set scoring_stop_words"
  proof -
    have "\<forall>w \<in> set ws. lower w \<in> set stop_words \<and> lower w \<notin> set scoring_stop_words"
      using assms(2) that by blast
    then have nc: "\<forall>c \<in> set trigger_cores. \<not> sublist c ?ql"
      using neutral_query_no_core by blast
    have "\<forall>(i, ps) \<in> set query_patterns. pattern_score ?ql ps = 0"
      using no_core_no_pattern [OF nc] by blast
    moreover have "\<forall>(i, ks) \<in> set intent_keywords. keyword_score ?ql ks = 0"
      using no_core_no_keyword [OF nc] by blast
    ultimately have "confidence c = 0"
      using top by (rule intent_scores_zero)
    then show ?thesis using prim by simp
  qed
  have 3: "primary_intent c \<noteq> ''general'' \<and> 1 / 2 \<le> confidence c"
    if "\<exists>w \<in> set ws. lower w \<in> set (concat (map snd intent_keywords))"
  proof -
    from that obtain w i ks where
      w: "w \<in> set ws" and ik: "(i, ks) \<in> set intent_keywords" and k: "lower w \<in> set ks"
      by auto
    have "lower w \<in> set stop_words" using assms(2) w by blast
    then have one: "1 \<le> keyword_score ?ql ks"
      using w ik k by (intro keyword_stop_word_scores)
    obtain j s where s: "(j, s) \<in> set (intent_scores ?ql)"
        "of_nat (keyword_score ?ql ks) * (1 / 2) \<le> s"
      using keyword_entry [OF ik] by blast
    have "(1 :: rat) \<le> of_nat (keyword_score ?ql ks)"
      using one by (metis of_nat_1 of_nat_le_iff)
    then have "1 / 2 \<le> s" using s(2) by simp
    then have "1 / 2 \<le> confidence c" using le s(1) by force
    then show ?thesis using prim ng by simp
  qed
  from cls 2 3 have "\<exists>c. classify_query_enhanced ?q = Inr c
              \<and> ((\<forall>w \<in> set ws. lower w \<notin> set scoring_stop_words)
                    \<longrightarrow> primary_intent c = ''general'' \<and> confidence c = 0)
              \<and> ((\<exists>w \<in> set ws. lower w \<in> set (concat (map snd intent_keywords)))
                    \<longrightarrow> primary_intent c \<noteq> ''general'' \<and> 1 / 2 \<le> confidence c)"
    by blast
  with 1 show ?thesis by (rule conjI)
qed

theorem stop_words_only_witness:
  "set_listing (remdups :: string list \<Rightarrow> string list)
     \<and> lower ''The'' \<in> set stop_words \<and> lower ''of'' \<in> set stop_words
     \<and> lower ''The'' \<notin> set scoring_stop_words \<and> lower ''of'' \<notin> set scoring_stop_words
     \<and> extract_key_concepts_enhanced remdups ''The of'' = []
     \<and> (\<exists>c. classify_query_enhanced ''The of'' = Inr c
           \<and> primary_intent c = ''general'' \<and> confidence c = 0)
     \<and> lower ''What'' \<in> set stop_words \<and> lower ''is'' \<in> set stop_words
     \<and> lower ''What'' \<in> set (concat (map snd intent_keywords))
     \<and> extract_key_concepts_enhanced remdups ''What is'' = []
     \<and> (\<exists>c. classify_query_enhanced ''What is'' = Inr c
           \<and> primary_intent c \<noteq> ''general'' \<and> 1 / 2 \<le> confidence c)"
proof -
  have a1: "\<forall>w \<in> set [''The'', ''of'']. lower w \<in> set stop_words"
    by code_simp
  have n1: "\<forall>w \<in> set [''The'', ''of'']. lower w \<notin> set scoring_stop_words"
    by code_simp
  have j1: "join '' '' [''The'', ''of''] = ''The of''"
    by simp
  have a2: "\<forall>w \<in> set [''What'', ''is'']. lower w \<in> set stop_words"
    by code_simp
  have k2: "lower ''What'' \<in> set (concat (map snd intent_keywords))"
    by code_simp
  have j2: "join '' '' [''What'', ''is''] = ''What is''"
    by simp
  from stop_words_only [OF set_listing_remdups a1] n1 have
    r1: "extract_key_concepts_enhanced remdups ''The of'' = []
         \<and> (\<exists>c. classify_query_enhanced ''The of'' = Inr c
               \<and> primary_intent c = ''general'' \<and> confidence c = 0)"
    unfolding j1 by blast
  have "\<exists>w \<in> set [''What'', ''is'']. lower w \<in> set (concat (map snd intent_keywords))"
    using k2 by simp
  with stop_words_only [OF set_listing_remdups a2] have
    r2: "extract_key_concepts_enhanced remdups ''What is'' = []
         \<and> (\<exists>c. classify_query_enhanced ''What is'' = Inr c
               \<and> primary_intent c \<noteq> ''general'' \<and> 1 / 2 \<le> confidence c)"
    unfolding j2 by blast
  from set_listing_remdups a1 n1 a2 k2 r1 r2 show ?thesis
    by simp
qed

section \<open>Properties of structured query synthesis\<close>

lemma candidates_list_all_animals:
  "candidate_concepts ''list all animals'' = [''all'', ''animals'']"
  by code_simp

lemma rank_list_all_animals:
  "rank_concepts ''list all animals'' [''all'', ''animals''] = [''all'', ''animals'']"
  "rank_concepts ''list all animals'' [''animals'', ''all''] = [''animals'', ''all'']"
  by code_simp+

lemma extract_list_all_animals:
  assumes "set_listing set_order"
  shows "extract_key_concepts_enhanced set_order ''list all animals'' = [''all'', ''animals'']
       \<or> extract_key_concepts_enhanced set_order ''list all animals'' = [''animals'', ''all'']"
proof -
  have "set_order [''all'', ''animals''] = [''all'', ''animals'']
      \<or> set_order [''all'', ''animals''] = [''animals'', ''all'']"
    using assms by (rule set_listing_two) simp
  then show ?thesis
    by (auto simp: extract_key_concepts_enhanced_def candidates_list_all_animals
        rank_list_all_animals)
qed

lemma listing_generates:
  assumes "primary_intent c = ''listing''"
  shows "generate_targeted_sparql_queries q c [a, b] = listing_specs a @ listing_specs b"
  using assms by (simp add: generate_targeted_sparql_queries_def)

lemma listing_specs_animals:
  \<open>list_all (\<lambda>s. contains ''LCASE("animals")'' (spec_query s)) (listing_specs ''animals'')\<close>
  by code_simp

lemma escape_animals: "escape_sparql_string ''animals'' = ''animals''"
  by code_simp

text \<open>
  C5 (as stated).  For the input \<open>list all animals\<close> the synthesizer yields four query
  specs, not two: \<open>all\<close> is no stop word and has three letters, so it is a concept too.
\<close>

theorem list_all_animals_four_specs:
  "classify_query_enhanced ''list all animals'' =
     Inr \<lparr> primary_intent = ''listing'', secondary_intent = None, confidence = 2,
           all_scores = [(''listing'', 2), (''definition'', 0), (''relationship'', 0),
             (''property'', 0), (''comparison'', 0), (''hierarchical'', 0),
             (''existence'', 0), (''count'', 0)] \<rparr>
   \<and> extract_key_concepts_enhanced remdups ''list all animals'' = [''all'', ''animals'']
   \<and> map spec_type
        (generate_targeted_sparql_queries ''list all animals''
           \<lparr> primary_intent = ''listing'', secondary_intent = None, confidence = 2,
             all_scores = [(''listing'', 2), (''definition'', 0), (''relationship'', 0),
               (''property'', 0), (''comparison'', 0), (''hierarchical'', 0),
               (''existence'', 0), (''count'', 0)] \<rparr>
           [''all'', ''animals''])
      = [''list_classes'', ''list_properties'', ''list_classes'', ''list_properties'']"
  by code_simp

text \<open>
  C5 (amended).  For the input \<open>list all animals\<close> the primary intent is \<open>listing\<close>, the
  concepts are \<open>all\<close> and \<open>animals\<close> (in either order), and the synthesizer yields exactly
  four specs, a \<open>list_classes\<close> and a \<open>list_properties\<close> spec for each of the two concepts;
  the two specs for \<open>animals\<close> hold the literal \<open>animals\<close>, which the escape function leaves
  unchanged.
\<close>

theorem list_all_animals_specs:
  assumes "set_listing set_order"
  shows "\<exists>c. classify_query_enhanced ''list all animals'' = Inr c
       \<and> primary_intent c = ''listing''
       \<and> set (extract_key_concepts_enhanced set_order ''list all animals'') = {''all'', ''animals''}
       \<and> length (generate_targeted_sparql_queries ''list all animals'' c
             (extract_key_concepts_enhanced set_order ''list all animals'')) = 4
       \<and> map spec_type (generate_targeted_sparql_queries ''list all animals'' c
             (extract_key_concepts_enhanced set_order ''list all animals''))
           = [''list_classes'', ''list_properties'', ''list_classes'', ''list_properties'']
       \<and> set (generate_targeted_sparql_queries ''list all animals'' c
             (extract_key_concepts_enhanced set_order ''list all animals''))
           = set (listing_specs ''all'') \<union> set (listing_specs ''animals'')
       \<and> list_all (\<lambda>s. contains (''LCASE('' @ [DQ] @ escape_sparql_string ''animals'' @ [DQ] @ '')'')
                           (spec_query s))
           (listing_specs ''animals'')"
proof -
  let ?q = "''list all animals''"
  let ?c = "\<lparr> primary_intent = ''listing'', secondary_intent = None, confidence = 2,
           all_scores = [(''listing'', 2), (''definition'', 0), (''relationship'', 0),
             (''property'', 0), (''comparison'', 0), (''hierarchical'', 0),
             (''existence'', 0), (''count'', 0 :: rat)] \<rparr>"
  let ?cs = "extract_key_concepts_enhanced set_order ?q"
  have cls: "classify_query_enhanced ?q = Inr ?c"
    by (rule classify_list_all_animals)
  have p: "primary_intent ?c = ''listing''" by simp
  from assms have cs: "?cs = [''all'', ''animals''] \<or> ?cs = [''animals'', ''all'']"
    by (rule extract_list_all_animals)
  then have 1: "set ?cs = {''all'', ''animals''}" by auto
  from cs have gen: "generate_targeted_sparql_queries ?q ?c ?cs
                       = listing_specs ''all'' @ listing_specs ''animals''
                   \<or> generate_targeted_sparql_queries ?q ?c ?cs
                       = listing_specs ''animals'' @ listing_specs ''all''"
    using listing_generates [OF p] by auto
  then have 2: "length (generate_targeted_sparql_queries ?q ?c ?cs) = 4"
    by (auto simp: listing_specs_def)
  from gen have 3: "map spec_type (generate_targeted_sparql_queries ?q ?c ?cs)
           = [''list_classes'', ''list_properties'', ''list_classes'', ''list_properties'']"
    by (auto simp: listing_specs_def)
  from gen have 4: "set (generate_targeted_sparql_queries ?q ?c ?cs)
           = set (listing_specs ''all'') \<union> set (listing_specs ''animals'')"
    by auto
  have 5: "list_all (\<lambda>s. contains (''LCASE('' @ [DQ] @ escape_sparql_string ''animals'' @ [DQ] @ '')'')
                           (spec_query s))
           (listing_specs ''animals'')"
    using listing_specs_animals by (simp add: escape_animals)
  show ?thesis
    by (rule exI [of _ ?c]) (intro conjI cls p 1 2 3 4 5)
qed

theorem list_all_animals_specs_witness:
  "set_listing (remdups :: string list \<Rightarrow> string list)
     \<and> extract_key_concepts_enhanced remdups ''list all animals'' = [''all'', ''animals'']
     \<and> (\<exists>c. classify_query_enhanced ''list all animals'' = Inr c
           \<and> primary_intent c = ''listing''
           \<and> length (generate_targeted_sparql_queries ''list all animals'' c [''all'', ''animals'']) = 4)"
proof -
  have e: "extract_key_concepts_enhanced remdups ''list all animals'' = [''all'', ''animals'']"
    by code_simp
  from list_all_animals_specs [OF set_listing_remdups] obtain c where
    c: "classify_query_enhanced ''list all animals'' = Inr c"
      "primary_intent c = ''listing''"
      "length (generate_targeted_sparql_queries ''list all animals'' c
         (extract_key_concepts_enhanced remdups ''list all animals'')) = 4"
    by (elim exE conjE)
  have "\<exists>c. classify_query_enhanced ''list all animals'' = Inr c
           \<and> primary_intent c = ''listing''
           \<and> length (generate_targeted_sparql_queries ''list all animals'' c [''all'', ''animals'']) = 4"
    using c(1,2) c(3) [unfolded e] by (intro exI [of _ c] conjI)
  then show ?thesis
    using set_listing_remdups e by (intro conjI)
qed

text \<open>
  C1.  The synthesizer splices the concept into the query text as it is.  The query
  \<open>list 'a"b'\<close> is classified as \<open>listing\<close>, its only concept is the quoted phrase \<open>a"b\<close>,
  and the text of the generated \<open>list_classes\<close> query holds \<open>LCASE("a"b")\<close>: the double quote
  of the concept ends the literal.  The escape function would have turned the concept
  into \<open>ab\<close>, which the query text does not hold.
\<close>

theorem concept_spliced_unescaped:
  "classify_query_enhanced (''list '' @ [SQ, CHR ''a'', DQ, CHR ''b'', SQ]) =
     Inr \<lparr> primary_intent = ''listing'', secondary_intent = None, confidence = 3 / 2,
           all_scores = [(''listing'', 3 / 2), (''definition'', 0), (''relationship'', 0),
             (''property'', 0), (''comparison'', 0), (''hierarchical'', 0),
             (''existence'', 0), (''count'', 0)] \<rparr>
   \<and> extract_key_concepts_enhanced remdups (''list '' @ [SQ, CHR ''a'', DQ, CHR ''b'', SQ])
       = [[CHR ''a'', DQ, CHR ''b'']]
   \<and> map spec_query
        (generate_targeted_sparql_queries (''list '' @ [SQ, CHR ''a'', DQ, CHR ''b'', SQ])
           \<lparr> primary_intent = ''listing'', secondary_intent = None, confidence = 3 / 2,
             all_scores = [(''listing'', 3 / 2), (''definition'', 0), (''relationship'', 0),
               (''property'', 0), (''comparison'', 0), (''hierarchical'', 0),
               (''existence'', 0), (''count'', 0)] \<rparr>
           [[CHR ''a'', DQ, CHR ''b'']])
       = [list_classes_query [CHR ''a'', DQ, CHR ''b''],
          list_properties_query [CHR ''a'', DQ, CHR ''b'']]
   \<and> contains (''LCASE('' @ [DQ, CHR ''a'', DQ, CHR ''b'', DQ] @ '')'')
        (list_classes_query [CHR ''a'', DQ, CHR ''b''])
   \<and> escape_sparql_string [CHR ''a'', DQ, CHR ''b''] = ''ab''
   \<and> \<not> contains (''LCASE('' @ [DQ] @ ''ab'' @ [DQ] @ '')'')
        (list_classes_query [CHR ''a'', DQ, CHR ''b''])"
  by code_simp

section \<open>Properties of the orchestrator\<close>

lemma chain_step_fields:
  "vector_search_results (chain_step env u r) = vector_search_results r"
  "direct_sparql_results (chain_step env u r) = direct_sparql_results r"
  "query_classification (chain_step env u r) = query_classification r"
  "cleaned_query (chain_step env u r) = cleaned_query r"
  "key_concepts (chain_step env u r) = key_concepts r"
  "success (chain_step env u r) = success r"
  by (simp_all add: chain_step_def split: chain_reply.splits)

lemma chain_step_methods:
  "processing_method (chain_step env u r) =
     processing_method r @
       (if u \<and> sparql_chain env
           \<and> (\<forall>e. query_with_langchain env (cleaned_query r) \<noteq> Raises e)
        then [''sparql_chain''] else [])"
  by (simp add: chain_step_def split: chain_reply.splits)

lemma chain_step_returns:
  assumes "u" "sparql_chain env" "query_with_langchain env (cleaned_query r) = Returns d"
  shows "sparql_chain_result (chain_step env u r) = Some d"
  using assms by (simp add: chain_step_def)

lemma direct_step_fields:
  "vector_search_results (direct_step env r) = vector_search_results r"
  "sparql_chain_result (direct_step env r) = sparql_chain_result r"
  "query_classification (direct_step env r) = query_classification r"
  "cleaned_query (direct_step env r) = cleaned_query r"
  "key_concepts (direct_step env r) = key_concepts r"
  "success (direct_step env r) = success r"
  by (simp_all add: direct_step_def Let_def)

lemma direct_step_methods:
  "processing_method (direct_step env r) =
     processing_method r @
       (if primary_intent (query_classification r) \<in> set structured_intents then [''direct_sparql''] else [])"
  by (simp add: direct_step_def Let_def)

lemma direct_step_results:
  "primary_intent (query_classification r) \<in> set structured_intents \<Longrightarrow>
   direct_sparql_results (direct_step env r) =
     concat (map (run_direct_query env)
       (generate_targeted_sparql_queries (cleaned_query r) (query_classification r)
          (key_concepts r)))"
  by (simp add: direct_step_def Let_def)

lemma enhance_step_fields:
  "vector_search_results (enhance_step env r) = vector_search_results r"
  "sparql_chain_result (enhance_step env r) = sparql_chain_result r"
  "direct_sparql_results (enhance_step env r) = direct_sparql_results r"
  "query_classification (enhance_step env r) = query_classification r"
  "cleaned_query (enhance_step env r) = cleaned_query r"
  "key_concepts (enhance_step env r) = key_concepts r"
  "processing_method (enhance_step env r) = processing_method r"
  "success (enhance_step env r) = success r"
  by (simp_all add: enhance_step_def)

lemma classify_total: "\<exists>c. classify_query_enhanced q = Inr c"
  by (rule classify_cases [of q]) blast

text \<open>The shape of every result of \<open>process_query\<close>, by the state after step 1.\<close>

lemma process_query_result:
  obtains c r1 r where
    "classify_query_enhanced (preprocess_query q) = Inr c"
    "r1 = vector_step env top_k iv
            \<lparr> original_query = q, cleaned_query = preprocess_query q,
              query_classification = c,
              key_concepts = extract_key_concepts_enhanced set_order (preprocess_query q),
              vector_search_results = [], sparql_chain_result = None,
              direct_sparql_results = [], enhanced_entities = None, context_text = [],
              success = True, processing_method = [] \<rparr>"
    "process_query env set_order q top_k u iv = Inr r"
    "vector_search_results r = vector_search_results r1"
    "sparql_chain_result r = sparql_chain_result (chain_step env u r1)"
    "direct_sparql_results r = direct_sparql_results (direct_step env (chain_step env u r1))"
    "processing_method r = processing_method (direct_step env (chain_step env u r1))"
    "query_classification r = c"
    "cleaned_query r = preprocess_query q"
    "key_concepts r = extract_key_concepts_enhanced set_order (preprocess_query q)"
    "success r"
proof -
  obtain c where c: "classify_query_enhanced (preprocess_query q) = Inr c"
    using classify_total by blast
  define r0 where "r0 = \<lparr> original_query = q, cleaned_query = preprocess_query q,
              query_classification = c,
              key_concepts = extract_key_concepts_enhanced set_order (preprocess_query q),
              vector_search_results = [], sparql_chain_result = None,
              direct_sparql_results = [], enhanced_entities = None, context_text = [],
              success = True, processing_method = [] \<rparr>"
  define r1 where "r1 = vector_step env top_k iv r0"
  define r4 where "r4 = enhance_step env (direct_step env (chain_step env u r1))"
  define r where "r = r4\<lparr> context_text := generate_comprehensive_context env r4 \<rparr>"
  have pq: "process_query env set_order q top_k u iv = Inr r"
    by (simp add: process_query_def c Let_def r_def r4_def r1_def r0_def)
  have r1_fields: "query_classification r1 = c" "cleaned_query r1 = preprocess_query q"
    "key_concepts r1 = extract_key_concepts_enhanced set_order (preprocess_query q)"
    "success r1"
    by (simp_all add: r1_def r0_def vector_step_def split: option.splits sum.splits)
  show ?thesis
  proof (rule that [of c r1 r])
    show "classify_query_enhanced (preprocess_query q) = Inr c" by (rule c)
    show "r1 = vector_step env top_k iv
            \<lparr> original_query = q, cleaned_query = preprocess_query q,
              query_classification = c,
              key_concepts = extract_key_concepts_enhanced set_order (preprocess_query q),
              vector_search_results = [], sparql_chain_result = None,
              direct_sparql_results = [], enhanced_entities = None, context_text = [],
              success = True, processing_method = [] \<rparr>"
      by (simp only: r1_def r0_def)
    show "process_query env set_order q top_k u iv = Inr r" by (rule pq)
    show "vector_search_results r = vector_search_results r1"
      by (simp add: r_def r4_def enhance_step_fields direct_step_fields chain_step_fields)
    show "sparql_chain_result r = sparql_chain_result (chain_step env u r1)"
      by (simp add: r_def r4_def enhance_step_fields direct_step_fields)
    show "direct_sparql_results r = direct_sparql_results (direct_step env (chain_step env u r1))"
      by (simp add: r_def r4_def enhance_step_fields)
    show "processing_method r = processing_method (direct_step env (chain_step env u r1))"
      by (simp add: r_def r4_def enhance_step_fields)
    show "query_classification r = c"
      by (simp add: r_def r4_def enhance_step_fields direct_step_fields chain_step_fields r1_fields)
    show "cleaned_query r = preprocess_query q"
      by (simp add: r_def r4_def enhance_step_fields direct_step_fields chain_step_fields r1_fields)
    show "key_concepts r = extract_key_concepts_enhanced set_order (preprocess_query q)"
      by (simp add: r_def r4_def enhance_step_fields direct_step_fields chain_step_fields r1_fields)
    show "success r"
      by (simp add: r_def r4_def enhance_step_fields direct_step_fields chain_step_fields r1_fields)
  qed
qed


text \<open>
  C4.  When the vector store is configured and its search raises, \<open>process_query\<close> still
  returns a successful result: the vector results are empty and \<open>vector_search\<close> is not
  among the processing methods; a reply of the chain is stored and recorded as
  \<open>sparql_chain\<close>; and for a structured intent \<open>direct_sparql\<close> is recorded and every
  synthesized query that returned rows is among the direct results.
\<close>

theorem vector_failure_isolated:
  assumes "vector_store env = Some search_similar"
    and "search_similar (preprocess_query q) top_k = Inl e"
  shows "\<exists>r c. process_query env set_order q top_k u True = Inr r
       \<and> success r
       \<and> classify_query_enhanced (preprocess_query q) = Inr c
       \<and> query_classification r = c
       \<and> vector_search_results r = []
       \<and> ''vector_search'' \<notin> set (processing_method r)
       \<and> (\<forall>d. u \<and> sparql_chain env \<and> query_with_langchain env (preprocess_query q) = Returns d
              \<longrightarrow> sparql_chain_result r = Some d \<and> ''sparql_chain'' \<in> set (processing_method r))
       \<and> (primary_intent c \<in> set structured_intents
              \<longrightarrow> ''direct_sparql'' \<in> set (processing_method r)
                \<and> (\<forall>spec \<in> set (generate_targeted_sparql_queries (preprocess_query q) c
                                    (extract_key_concepts_enhanced set_order (preprocess_query q))).
                     \<forall>rows. query_sparql env (spec_query spec) = Inr rows \<and> rows \<noteq> []
                       \<longrightarrow> \<lparr> query_type = spec_type spec, sparql_query = spec_query spec,
                              results = rows, description = spec_description spec \<rparr>
                             \<in> set (direct_sparql_results r)))"
proof -
  obtain c r1 r where
    c: "classify_query_enhanced (preprocess_query q) = Inr c" and
    r1: "r1 = vector_step env top_k True
            \<lparr> original_query = q, cleaned_query = preprocess_query q,
              query_classification = c,
              key_concepts = extract_key_concepts_enhanced set_order (preprocess_query q),
              vector_search_results = [], sparql_chain_result = None,
              direct_sparql_results = [], enhanced_entities = None, context_text = [],
              success = True, processing_method = [] \<rparr>" and
    pq: "process_query env set_order q top_k u True = Inr r" and
    v: "vector_search_results r = vector_search_results r1" and
    ch: "sparql_chain_result r = sparql_chain_result (chain_step env u r1)" and
    dr: "direct_sparql_results r = direct_sparql_results (direct_step env (chain_step env u r1))" and
    pm: "processing_method r = processing_method (direct_step env (chain_step env u r1))" and
    qc: "query_classification r = c" and
    ok: "success r"
    by (rule process_query_result [of q env top_k True set_order u])
  have r1_eq: "vector_search_results r1 = []" "processing_method r1 = []"
    "cleaned_query r1 = preprocess_query q" "query_classification r1 = c"
    "key_concepts r1 = extract_key_concepts_enhanced set_order (preprocess_query q)"
    using assms by (simp_all add: r1 vector_step_def)
  have methods: "processing_method r =
      (if u \<and> sparql_chain env \<and> (\<forall>e. query_with_langchain env (preprocess_query q) \<noteq> Raises e)
       then [''sparql_chain''] else [])
      @ (if primary_intent c \<in> set structured_intents then [''direct_sparql''] else [])"
    by (simp add: pm direct_step_methods chain_step_methods chain_step_fields r1_eq)
  have 1: "vector_search_results r = []"
    by (simp add: v r1_eq)
  have 2: "''vector_search'' \<notin> set (processing_method r)"
    by (simp add: methods)
  have 3: "sparql_chain_result r = Some d \<and> ''sparql_chain'' \<in> set (processing_method r)"
    if "u \<and> sparql_chain env \<and> query_with_langchain env (preprocess_query q) = Returns d" for d
    using that by (simp add: ch methods chain_step_returns r1_eq)
  have 4: "''direct_sparql'' \<in> set (processing_method r)"
    if "primary_intent c \<in> set structured_intents"
    using that by (simp add: methods)
  have 5: "\<lparr> query_type = spec_type spec, sparql_query = spec_query spec,
             results = rows, description = spec_description spec \<rparr>
             \<in> set (direct_sparql_results r)"
    if "primary_intent c \<in> set structured_intents"
      and "spec \<in> set (generate_targeted_sparql_queries (preprocess_query q) c
                         (extract_key_concepts_enhanced set_order (preprocess_query q)))"
      and "query_sparql env (spec_query spec) = Inr rows \<and> rows \<noteq> []"
    for spec rows
  proof -
    have "direct_sparql_results r =
        concat (map (run_direct_query env)
          (generate_targeted_sparql_queries (preprocess_query q) c
             (extract_key_concepts_enhanced set_order (preprocess_query q))))"
      using that(1) by (simp add: dr direct_step_results chain_step_fields r1_eq)
    moreover have "\<lparr> query_type = spec_type spec, sparql_query = spec_query spec,
             results = rows, description = spec_description spec \<rparr>
             \<in> set (run_direct_query env spec)"
      using that(3) by (simp add: run_direct_query_def)
    ultimately show ?thesis using that(2) by auto
  qed
  show ?thesis
    apply (rule exI [of _ r], rule exI [of _ c])
    apply (intro conjI pq ok c qc 1 2)
    using 3 4 5 by blast+
qed

lemma preprocess_list_all_animals:
  "preprocess_query ''list all animals'' = ''list all animals''"
  by code_simp

theorem vector_failure_isolated_witness:
  "vector_store
     \<lparr> vector_store = Some (\<lambda>query_text top_k. Inl (CollaboratorError ''index down'')),
       sparql_chain = True,
       query_with_langchain = (\<lambda>query_text. Returns [(''answer'', ''Cat and Dog'')]),
       query_sparql = (\<lambda>text. Inr [[(''class'', ''Cat'')]]),
       enhance_entity_with_relations = (\<lambda>entity. entity),
       get_schema_summary = Inr ''schema'' \<rparr>
     = Some (\<lambda>query_text top_k. Inl (CollaboratorError ''index down''))
   \<and> (\<lambda>query_text top_k. Inl (CollaboratorError ''index down'') :: py_error + entity list)
        (preprocess_query ''list all animals'') (15 :: int)
       = Inl (CollaboratorError ''index down'')
   \<and> (\<exists>r. process_query
           \<lparr> vector_store = Some (\<lambda>query_text top_k. Inl (CollaboratorError ''index down'')),
             sparql_chain = True,
             query_with_langchain = (\<lambda>query_text. Returns [(''answer'', ''Cat and Dog'')]),
             query_sparql = (\<lambda>text. Inr [[(''class'', ''Cat'')]]),
             enhance_entity_with_relations = (\<lambda>entity. entity),
             get_schema_summary = Inr ''schema'' \<rparr>
           remdups ''list all animals'' 15 True True = Inr r
         \<and> vector_search_results r = []
         \<and> ''vector_search'' \<notin> set (processing_method r)
         \<and> sparql_chain_result r = Some [(''answer'', ''Cat and Dog'')]
         \<and> ''sparql_chain'' \<in> set (processing_method r)
         \<and> ''direct_sparql'' \<in> set (processing_method r)
         \<and> \<lparr> query_type = ''list_classes'', sparql_query = list_classes_query ''animals'',
              results = [[(''class'', ''Cat'')]],
              description = list_classes_description ''animals'' \<rparr>
             \<in> set (direct_sparql_results r))"
    (is "vector_store ?E = Some ?S \<and> ?S _ _ = _ \<and> (\<exists>r. ?P r)")
proof -
  let ?q = "''list all animals''"
  have h1: "vector_store ?E = Some ?S" by simp
  have h2: "?S (preprocess_query ?q) 15 = Inl (CollaboratorError ''index down'')" by simp
  obtain r c where
    pq: "process_query ?E remdups ?q 15 True True = Inr r" and
    c: "classify_query_enhanced (preprocess_query ?q) = Inr c" and
    v: "vector_search_results r = []" and
    nv: "''vector_search'' \<notin> set (processing_method r)" and
    ch: "\<forall>d. True \<and> sparql_chain ?E \<and> query_with_langchain ?E (preprocess_query ?q) = Returns d
              \<longrightarrow> sparql_chain_result r = Some d \<and> ''sparql_chain'' \<in> set (processing_method r)" and
    dr: "primary_intent c \<in> set structured_intents
              \<longrightarrow> ''direct_sparql'' \<in> set (processing_method r)
                \<and> (\<forall>spec \<in> set (generate_targeted_sparql_queries (preprocess_query ?q) c
                                    (extract_key_concepts_enhanced remdups (preprocess_query ?q))).
                     \<forall>rows. query_sparql ?E (spec_query spec) = Inr rows \<and> rows \<noteq> []
                       \<longrightarrow> \<lparr> query_type = spec_type spec, sparql_query = spec_query spec,
                              results = rows, description = spec_description spec \<rparr>
                             \<in> set (direct_sparql_results r))"
    using vector_failure_isolated [where q = ?q and top_k = 15 and set_order = remdups and u = True,
        OF h1 h2]
    by (elim exE conjE)
  have c_eq: "c = \<lparr> primary_intent = ''listing'', secondary_intent = None, confidence = 2,
           all_scores = [(''listing'', 2), (''definition'', 0), (''relationship'', 0),
             (''property'', 0), (''comparison'', 0), (''hierarchical'', 0),
             (''existence'', 0), (''count'', 0)] \<rparr>"
    using c by (simp add: preprocess_list_all_animals classify_list_all_animals)
  have p: "primary_intent c \<in> set structured_intents"
    by (simp add: c_eq structured_intents_def)
  have e: "extract_key_concepts_enhanced remdups ?q = [''all'', ''animals'']"
    by code_simp
  have specs: "generate_targeted_sparql_queries ?q c [''all'', ''animals'']
                 = listing_specs ''all'' @ listing_specs ''animals''"
    by (rule listing_generates) (simp add: c_eq)
  have mem: "\<lparr> spec_type = ''list_classes'', spec_query = list_classes_query ''animals'',
               spec_description = list_classes_description ''animals'' \<rparr>
             \<in> set (generate_targeted_sparql_queries (preprocess_query ?q) c
                      (extract_key_concepts_enhanced remdups (preprocess_query ?q)))"
    by (simp add: preprocess_list_all_animals e specs listing_specs_def)
  have 1: "sparql_chain_result r = Some [(''answer'', ''Cat and Dog'')]
           \<and> ''sparql_chain'' \<in> set (processing_method r)"
    using ch by simp
  have 2: "''direct_sparql'' \<in> set (processing_method r)"
    using dr p by blast
  have 3: "\<lparr> query_type = ''list_classes'', sparql_query = list_classes_query ''animals'',
              results = [[(''class'', ''Cat'')]],
              description = list_classes_description ''animals'' \<rparr>
             \<in> set (direct_sparql_results r)"
    using dr p mem by force
  have "?P r"
    using pq v nv 1 2 3 by (intro conjI) simp_all
  then have "\<exists>r. ?P r" ..
  with h1 h2 show ?thesis by (intro conjI)
qed

text \<open>
  C10.  \<open>process_query\<close> always returns a result, and whenever the primary intent is one of
  \<open>listing\<close>, \<open>hierarchical\<close>, \<open>count\<close> and \<open>relationship\<close>, \<open>direct_sparql\<close> is among the
  processing methods, also when every structured query raises or returns no rows and the
  direct results are therefore empty.
\<close>

theorem direct_sparql_always_recorded:
  "\<exists>r c. process_query env set_order q top_k u iv = Inr r
       \<and> classify_query_enhanced (preprocess_query q) = Inr c
       \<and> query_classification r = c
       \<and> (primary_intent c \<in> set structured_intents
            \<longrightarrow> ''direct_sparql'' \<in> set (processing_method r)
              \<and> ((\<forall>text. case query_sparql env text of Inl e \<Rightarrow> True | Inr rows \<Rightarrow> rows = [])
                    \<longrightarrow> direct_sparql_results r = []))"
proof -
  obtain c r1 r where
    c: "classify_query_enhanced (preprocess_query q) = Inr c" and
    pq: "process_query env set_order q top_k u iv = Inr r" and
    dr: "direct_sparql_results r = direct_sparql_results (direct_step env (chain_step env u r1))" and
    pm: "processing_method r = processing_method (direct_step env (chain_step env u r1))" and
    qc: "query_classification r = c" and
    r1: "r1 = vector_step env top_k iv
            \<lparr> original_query = q, cleaned_query = preprocess_query q,
              query_classification = c,
              key_concepts = extract_key_concepts_enhanced set_order (preprocess_query q),
              vector_search_results = [], sparql_chain_result = None,
              direct_sparql_results = [], enhanced_entities = None, context_text = [],
              success = True, processing_method = [] \<rparr>"
    by (rule process_query_result [of q env top_k iv set_order u])
  have r1c: "query_classification r1 = c"
    by (simp add: r1 vector_step_def split: option.splits sum.splits)
  have 1: "''direct_sparql'' \<in> set (processing_method r)"
    if "primary_intent c \<in> set structured_intents"
    using that by (simp add: pm direct_step_methods chain_step_fields r1c)
  have none: "run_direct_query env spec = []"
    if "\<forall>text. case query_sparql env text of Inl e \<Rightarrow> True | Inr rows \<Rightarrow> rows = []" for spec
    using that [rule_format, of "spec_query spec"]
    by (simp add: run_direct_query_def split: sum.splits)
  have 2: "direct_sparql_results r = []"
    if "primary_intent c \<in> set structured_intents"
      and "\<forall>text. case query_sparql env text of Inl e \<Rightarrow> True | Inr rows \<Rightarrow> rows = []"
    using that(1) none [OF that(2)]
    by (simp add: dr direct_step_results chain_step_fields r1c)
  show ?thesis
    apply (rule exI [of _ r], rule exI [of _ c])
    apply (intro conjI pq c qc)
    using 1 2 by blast
qed

theorem direct_sparql_always_recorded_witness:
  "\<exists>r. process_query
           \<lparr> vector_store = None, sparql_chain = False,
             query_with_langchain = (\<lambda>query_text. Raises (CollaboratorError ''no chain'')),
             query_sparql = (\<lambda>text. Inl (CollaboratorError ''syntax error'')),
             enhance_entity_with_relations = (\<lambda>entity. entity),
             get_schema_summary = Inr ''schema'' \<rparr>
           remdups ''list all animals'' 15 True True = Inr r
         \<and> primary_intent (query_classification r) = ''listing''
         \<and> ''listing'' \<in> set structured_intents
         \<and> ''direct_sparql'' \<in> set (processing_method r)
         \<and> direct_sparql_results r = []"
    (is "\<exists>r. process_query ?E _ _ _ _ _ = _ \<and> _ \<and> _ \<and> _ \<and> _")
proof -
  let ?q = "''list all animals''"
  obtain r c where
    pq: "process_query ?E remdups ?q 15 True True = Inr r" and
    c: "classify_query_enhanced (preprocess_query ?q) = Inr c" and
    qc: "query_classification r = c" and
    dr: "primary_intent c \<in> set structured_intents
            \<longrightarrow> ''direct_sparql'' \<in> set (processing_method r)
              \<and> ((\<forall>text. case query_sparql ?E text of Inl e \<Rightarrow> True | Inr rows \<Rightarrow> rows = [])
                    \<longrightarrow> direct_sparql_results r = [])"
    using direct_sparql_always_recorded [where env = ?E and set_order = remdups and q = ?q
        and top_k = 15 and u = True and iv = True]
    by (elim exE conjE)
  have c_eq: "c = \<lparr> primary_intent = ''listing'', secondary_intent = None, confidence = 2,
           all_scores = [(''listing'', 2), (''definition'', 0), (''relationship'', 0),
             (''property'', 0), (''comparison'', 0), (''hierarchical'', 0),
             (''existence'', 0), (''count'', 0)] \<rparr>"
    using c by (simp add: preprocess_list_all_animals classify_list_all_animals)
  have l: "''listing'' \<in> set structured_intents"
    by (simp add: structured_intents_def)
  have p: "primary_intent c = ''listing''" by (simp add: c_eq)
  have "''direct_sparql'' \<in> set (processing_method r) \<and> direct_sparql_results r = []"
    using dr p l by simp
  then show ?thesis
    using pq qc p l by (intro exI [of _ r] conjI) simp_all
qed

section \<open>Properties of context assembly\<close>

lemma join_nonempty: "x \<noteq> [] \<Longrightarrow> join sep (x # xs) \<noteq> []"
  by (cases xs) simp_all

lemma info_section_head:
  "info_section r = (''User Query: '' @ original_query r) # tl (info_section r)"
  by (simp add: info_section_def)

lemma context_nonempty: "generate_comprehensive_context env r \<noteq> []"
proof (cases "schema_section env r")
  case (Inl e)
  then show ?thesis by (simp add: generate_comprehensive_context_def)
next
  case (Inr schema)
  have "join [NL] (info_section r @ chain_section r @ vector_section r @ direct_section r
          @ schema @ instructions) \<noteq> []"
    by (subst info_section_head) (simp add: join_nonempty)
  with Inr show ?thesis by (simp add: generate_comprehensive_context_def)
qed

text \<open>
  C9 (as stated).  With no semantic hits and no chain result, but with one structured
  result set, the context holds the structured-results section and the schema overview
  side by side: the overview does not take the place of that section.
\<close>

theorem schema_overview_beside_structured_results:
  "vector_search_results
     \<lparr> original_query = ''list cats'', cleaned_query = ''list cats'',
       query_classification =
         \<lparr> primary_intent = ''listing'', secondary_intent = None, confidence = 3 / 2,
           all_scores = [] \<rparr>,
       key_concepts = [''cats''], vector_search_results = [], sparql_chain_result = None,
       direct_sparql_results =
         [\<lparr> query_type = ''list_classes'', sparql_query = list_classes_query ''cats'',
            results = [[(''class'', ''Cat'')]],
            description = list_classes_description ''cats'' \<rparr>],
       enhanced_entities = None, context_text = [], success = True,
       processing_method = [''direct_sparql''] \<rparr> = []
   \<and> generate_comprehensive_context
       \<lparr> vector_store = None, sparql_chain = False,
         query_with_langchain = (\<lambda>query_text. ReturnsNone),
         query_sparql = (\<lambda>text. Inr [[(''class'', ''Cat'')]]),
         enhance_entity_with_relations = (\<lambda>entity. entity),
         get_schema_summary = Inr ''Classes: 1'' \<rparr>
       \<lparr> original_query = ''list cats'', cleaned_query = ''list cats'',
         query_classification =
           \<lparr> primary_intent = ''listing'', secondary_intent = None, confidence = 3 / 2,
             all_scores = [] \<rparr>,
         key_concepts = [''cats''], vector_search_results = [], sparql_chain_result = None,
         direct_sparql_results =
           [\<lparr> query_type = ''list_classes'', sparql_query = list_classes_query ''cats'',
              results = [[(''class'', ''Cat'')]],
              description = list_classes_description ''cats'' \<rparr>],
         enhanced_entities = None, context_text = [], success = True,
         processing_method = [''direct_sparql''] \<rparr>
     = join [NL]
         ([''User Query: list cats'', ''Query Intent: listing'', ''Key Concepts: cats'', '''',
           ''=== ADDITIONAL SPARQL QUERY RESULTS ==='',
           ''Classes related to '' @ [DQ] @ ''cats'' @ [DQ] @ '':'',
           ''  1. class: Cat'', '''',
           ''=== ONTOLOGY SCHEMA OVERVIEW ==='', ''Classes: 1'', '''']
          @ instructions)"
  by code_simp

text \<open>
  With no semantic hits and a chain result that only carries an error, neither the chain
  section nor the schema overview is rendered.
\<close>

lemma chain_error_without_overview:
  assumes "vector_search_results r = []"
    and "sparql_chain_result r = Some [(''error'', msg)]" and "msg \<noteq> []"
  shows "generate_comprehensive_context env r
           = join [NL] (info_section r @ direct_section r @ instructions)"
  using assms
  by (simp add: generate_comprehensive_context_def schema_section_def chain_result_truthy_def
      chain_section_def vector_section_def dict_truthy_def)

text \<open>
  C9 (amended).  The assembled context is never empty.  When there are no semantic hits
  and the chain result is absent or an empty dictionary, and the schema summary is
  available, the context consists of the query information, the structured-results
  section (if there are structured results), the schema overview and the instructions;
  it has no chain section and no semantic section.
\<close>

theorem schema_overview_fallback:
  "generate_comprehensive_context env r \<noteq> []
   \<and> (vector_search_results r = [] \<and> \<not> chain_result_truthy (sparql_chain_result r)
        \<and> get_schema_summary env = Inr schema_summary
      \<longrightarrow> chain_section r = [] \<and> vector_section r = []
        \<and> generate_comprehensive_context env r
            = join [NL] (info_section r @ direct_section r
                @ [''=== ONTOLOGY SCHEMA OVERVIEW ==='', schema_summary, '''']
                @ instructions))"
proof -
  have "chain_section r = [] \<and> vector_section r = []
        \<and> generate_comprehensive_context env r
            = join [NL] (info_section r @ direct_section r
                @ [''=== ONTOLOGY SCHEMA OVERVIEW ==='', schema_summary, '''']
                @ instructions)"
    if "vector_search_results r = []" "\<not> chain_result_truthy (sparql_chain_result r)"
      "get_schema_summary env = Inr schema_summary"
  proof -
    have c: "chain_section r = []"
      using that(2) by (cases "sparql_chain_result r") (simp_all add: chain_section_def chain_result_truthy_def)
    have v: "vector_section r = []"
      using that(1) by (simp add: vector_section_def)
    have s: "schema_section env r = Inr [''=== ONTOLOGY SCHEMA OVERVIEW ==='', schema_summary, '''']"
      using that by (simp add: schema_section_def)
    show ?thesis
      by (simp add: c v s generate_comprehensive_context_def)
  qed
  then show ?thesis using context_nonempty by blast
qed

theorem schema_overview_fallback_witness:
  "vector_search_results
     \<lparr> original_query = ''hello'', cleaned_query = ''hello'',
       query_classification =
         \<lparr> primary_intent = ''general'', secondary_intent = None, confidence = 0,
           all_scores = [] \<rparr>,
       key_concepts = [''hello''], vector_search_results = [], sparql_chain_result = Some [],
       direct_sparql_results = [], enhanced_entities = None, context_text = [],
       success = True, processing_method = [] \<rparr> = []
   \<and> \<not> chain_result_truthy (Some [])
   \<and> get_schema_summary
       \<lparr> vector_store = None, sparql_chain = False,
         query_with_langchain = (\<lambda>query_text. ReturnsNone),
         query_sparql = (\<lambda>text. Inr []),
         enhance_entity_with_relations = (\<lambda>entity. entity),
         get_schema_summary = Inr ''Classes: 1'' \<rparr> = Inr ''Classes: 1''
   \<and> generate_comprehensive_context
       \<lparr> vector_store = None, sparql_chain = False,
         query_with_langchain = (\<lambda>query_text. ReturnsNone),
         query_sparql = (\<lambda>text. Inr []),
         enhance_entity_with_relations = (\<lambda>entity. entity),
         get_schema_summary = Inr ''Classes: 1'' \<rparr>
       \<lparr> original_query = ''hello'', cleaned_query = ''hello'',
         query_classification =
           \<lparr> primary_intent = ''general'', secondary_intent = None, confidence = 0,
             all_scores = [] \<rparr>,
         key_concepts = [''hello''], vector_search_results = [], sparql_chain_result = Some [],
         direct_sparql_results = [], enhanced_entities = None, context_text = [],
         success = True, processing_method = [] \<rparr>
     = join [NL]
         ([''User Query: hello'', ''Query Intent: general'', ''Key Concepts: hello'', '''',
           ''=== ONTOLOGY SCHEMA OVERVIEW ==='', ''Classes: 1'', '''']
          @ instructions)"
    (is "vector_search_results ?r = [] \<and> _ \<and> get_schema_summary ?E = _ \<and> _")
proof -
  have h1: "vector_search_results ?r = []" by simp
  have h2: "\<not> chain_result_truthy (sparql_chain_result ?r)"
    by (simp add: chain_result_truthy_def)
  have h3: "get_schema_summary ?E = Inr ''Classes: 1''" by simp
  have "generate_comprehensive_context ?E ?r
          = join [NL] (info_section ?r @ direct_section ?r
                @ [''=== ONTOLOGY SCHEMA OVERVIEW ==='', ''Classes: 1'', '''']
                @ instructions)"
    using schema_overview_fallback [of ?E ?r "''Classes: 1''"] h1 h2 h3 by blast
  moreover have "info_section ?r
      = [''User Query: hello'', ''Query Intent: general'', ''Key Concepts: hello'', '''']"
    by (simp add: info_section_def)
  moreover have "direct_section ?r = []"
    by (simp add: direct_section_def)
  ultimately show ?thesis
    using h1 h3 by (simp add: chain_result_truthy_def)
qed

end
